theory Spec2Isabelle
  imports Main "HOL-Library.Word" "HOL-Library.Monad_Syntax"
begin

unbundle bit_operations_syntax

section \<open>The LCD and button driver of the hardware Bitcoin wallet (avr/lcd\_and\_input.c)\<close>

text \<open>
  A shallow embedding of \<^verbatim>\<open>lcd_and_input.c\<close>. The file's static variables are the
  fields of one record; every C function becomes a function on that record. The timer
  interrupt becomes a function of the sampled input registers and the record.
\<close>

subsection \<open>Constants of the file\<close>

definition MAX_OUTPUTS :: nat where "MAX_OUTPUTS = 2"

definition RS_PIN :: "8 word" where "RS_PIN = 12"

definition ACCEPT_PIN :: "8 word" where "ACCEPT_PIN = 6"

definition CANCEL_PIN :: "8 word" where "CANCEL_PIN = 7"

definition NUM_COLUMNS :: nat where "NUM_COLUMNS = 16"

definition SCROLL_SPEED :: "16 word" where "SCROLL_SPEED = 150"

definition SCROLL_PAUSE :: "16 word" where "SCROLL_PAUSE = 450"

definition DEBOUNCE_COUNT :: nat where "DEBOUNCE_COUNT = 8"

text \<open>
  \<^verbatim>\<open>TEXT_AMOUNT_LENGTH\<close>, \<^verbatim>\<open>TEXT_ADDRESS_LENGTH\<close> and \<^verbatim>\<open>SEED_LENGTH\<close> are defined in
  headers (\<^verbatim>\<open>hwinterface.h\<close>, \<^verbatim>\<open>prandom.h\<close>) that are not among the sources. They are
  parameters of the model.
\<close>

record config =
  TEXT_AMOUNT_LENGTH :: nat
  TEXT_ADDRESS_LENGTH :: nat
  SEED_LENGTH :: nat

subsection \<open>C strings\<close>

text \<open>
  A \<^verbatim>\<open>char *\<close> argument is the list of characters found from the pointer on; the string
  it denotes ends at the first NUL, or at the end of the list.
\<close>

definition NUL :: char where "NUL = CHR 0x00"

definition cstr :: "string \<Rightarrow> string" where
  "cstr str = takeWhile (\<lambda>c. c \<noteq> NUL) str"

text \<open>\<^verbatim>\<open>strncpy(dest, src, n)\<close>: at most \<open>n\<close> characters, the rest of \<open>dest\<close> filled with NUL.\<close>

definition strncpy :: "string \<Rightarrow> nat \<Rightarrow> string" where
  "strncpy src n = take n (cstr src) @ replicate (n - length (cstr src)) NUL"

subsection \<open>The static variables\<close>

text \<open>The input registers \<^verbatim>\<open>PIND\<close> and \<^verbatim>\<open>PINB\<close> as one timer tick finds them.\<close>

type_synonym pins = "8 word \<times> 8 word"

text \<open>
  \<open>rs\<close> is the level of the register-select line and \<open>lcd\<close> the nibbles clocked into the
  HD44780 so far, each with the register-select level it was sent under (False: command,
  True: data). The last field is not a variable of the file: \<open>delay_ticks\<close> lists, for each
  coming call of \<^verbatim>\<open>_delay_ms\<close>, the samples of the timer ticks that fire during it (the
  timer runs at 200 Hz, so two ticks fire during a delay of 10 ms). The delays of a few
  microseconds in \<^verbatim>\<open>write4\<close> are not modelled.
\<close>

record state =
  current_column :: "8 word"
  max_line_size :: "8 word"
  scroll_pos :: "8 word"
  scroll_to_left :: "8 word"
  scroll_counter :: "16 word"
  accept_button :: bool
  cancel_button :: bool
  accept_debounce :: "8 word"
  cancel_debounce :: "8 word"
  list_amount :: "string list"
  list_address :: "string list"
  list_index :: "8 word"
  transaction_fee_set :: bool
  transaction_fee_amount :: string
  rs :: bool
  lcd :: "(bool \<times> 8 word) list"
  delay_ticks :: "pins list list"

subsection \<open>Pins and bytes\<close>

text \<open>
  \<^verbatim>\<open>writeArduinoPin\<close> is only ever called on the LCD pins; of these the model keeps the
  register-select line.
\<close>

definition writeArduinoPin :: "8 word \<Rightarrow> 8 word \<Rightarrow> state \<Rightarrow> state" where
  "writeArduinoPin pin v s = (if pin = RS_PIN then s\<lparr>rs := (v \<noteq> 0)\<rparr> else s)"

text \<open>\<^verbatim>\<open>write4\<close> puts the low four bits on the data pins and pulses the enable pin.\<close>

definition write4 :: "8 word \<Rightarrow> state \<Rightarrow> state" where
  "write4 v s = s\<lparr>lcd := lcd s @ [(rs s, v AND 0x0f)]\<rparr>"

definition write8 :: "8 word \<Rightarrow> state \<Rightarrow> state" where
  "write8 v s = write4 v (write4 (drop_bit 4 v) s)"

definition sampleArduinoPin :: "8 word \<Rightarrow> pins \<Rightarrow> 8 word" where
  "sampleArduinoPin pin p =
     (if pin < 8 then fst p AND push_bit (unat pin) 1
      else snd p AND push_bit (unat (pin - 8)) 1)"

subsection \<open>The timer interrupt\<close>

definition isr_scroll :: "state \<Rightarrow> state" where
  "isr_scroll s0 =
     (let s = s0\<lparr>scroll_counter := scroll_counter s0 - 1\<rparr> in
      if scroll_counter s = 0 then
        (let s1 =
           (if unat (max_line_size s) > NUM_COLUMNS then
              (if scroll_to_left s \<noteq> 0 then
                 (if scroll_pos s = 0 then s\<lparr>scroll_to_left := 0\<rparr>
                  else (write8 0x1c (writeArduinoPin RS_PIN 0 s))\<lparr>scroll_pos := scroll_pos s - 1\<rparr>)
               else
                 (if int (unat (scroll_pos s)) = int (unat (max_line_size s)) - int NUM_COLUMNS
                  then s\<lparr>scroll_to_left := 1\<rparr>
                  else (write8 0x18 (writeArduinoPin RS_PIN 0 s))\<lparr>scroll_pos := scroll_pos s + 1\<rparr>))
            else s)
         in s1\<lparr>scroll_counter := SCROLL_SPEED\<rparr>)
      else s)"

definition isr_accept :: "pins \<Rightarrow> state \<Rightarrow> state" where
  "isr_accept p s =
     (let temp = (if sampleArduinoPin ACCEPT_PIN p \<noteq> 0 then True else False) in
      if (accept_button s \<and> temp) \<or> (\<not> accept_button s \<and> \<not> temp) then
        (let s1 = s\<lparr>accept_debounce := accept_debounce s + 1\<rparr> in
         if unat (accept_debounce s1) = DEBOUNCE_COUNT
         then s1\<lparr>accept_button := \<not> accept_button s1\<rparr> else s1)
      else s\<lparr>accept_debounce := 0\<rparr>)"

definition isr_cancel :: "pins \<Rightarrow> state \<Rightarrow> state" where
  "isr_cancel p s =
     (let temp = (sampleArduinoPin CANCEL_PIN p \<noteq> 0) in
      if (cancel_button s \<and> temp) \<or> (\<not> cancel_button s \<and> \<not> temp) then
        (let s1 = s\<lparr>cancel_debounce := cancel_debounce s + 1\<rparr> in
         if unat (cancel_debounce s1) = DEBOUNCE_COUNT
         then s1\<lparr>cancel_button := \<not> cancel_button s1\<rparr> else s1)
      else s\<lparr>cancel_debounce := 0\<rparr>)"

text \<open>\<^verbatim>\<open>ISR(TIMER0_COMPA_vect)\<close>: the scroll step, then the two buttons.\<close>

definition isr :: "pins \<Rightarrow> state \<Rightarrow> state" where
  "isr p s = isr_cancel p (isr_accept p (isr_scroll s))"

text \<open>Several ticks in a row, oldest sample first.\<close>

definition isrs :: "pins list \<Rightarrow> state \<Rightarrow> state" where
  "isrs ps s = fold isr ps s"

subsection \<open>Delays\<close>

text \<open>
  \<^verbatim>\<open>_delay_ms\<close> is called with the timer interrupt enabled: the ticks that fire during the
  delay run before it returns. When \<open>delay_ticks\<close> is used up no tick fires.
\<close>

definition delay_ms :: "state \<Rightarrow> state" where
  "delay_ms s =
     (case delay_ticks s of
        [] \<Rightarrow> s
      | ps # rest \<Rightarrow> isrs ps (s\<lparr>delay_ticks := rest\<rparr>))"

subsection \<open>The display\<close>

definition clearLcd :: "state \<Rightarrow> state" where
  "clearLcd s =
     delay_ms (write8 0x01 (writeArduinoPin RS_PIN 0
       (s\<lparr>current_column := 0, max_line_size := 0, scroll_pos := 0, scroll_to_left := 0,
          scroll_counter := SCROLL_SPEED\<rparr>)))"

text \<open>The interrupt is enabled (\<^verbatim>\<open>sei\<close>) after the stores and before the first delay.\<close>

definition initLcdAndInput :: "state \<Rightarrow> state" where
  "initLcdAndInput s =
     (let s1 = s\<lparr>scroll_counter := 1000, accept_button := False, cancel_button := False,
                 accept_debounce := 0, cancel_debounce := 0\<rparr>;
          s2 = delay_ms (writeArduinoPin RS_PIN 0 s1);
          s3 = write4 2 (write4 3 (delay_ms (write4 3 (delay_ms (write4 3 s2)))));
          s4 = write8 0x0c (write8 0x28 s3);
          s5 = write8 0x06 (clearLcd s4)
      in s5\<lparr>list_index := 0\<rparr>)"

definition gotoStartOfLine :: "8 word \<Rightarrow> state \<Rightarrow> state" where
  "gotoStartOfLine line s =
     (let s1 = writeArduinoPin RS_PIN 0 s;
          s2 = (if line = 0 then write8 0x80 s1 else write8 0xc0 s1)
      in s2\<lparr>current_column := 0\<rparr>)"

text \<open>
  The loop of \<^verbatim>\<open>writeString\<close>: it runs while the character read is not NUL and the column
  is below 40.
\<close>

fun writeChars :: "string \<Rightarrow> state \<Rightarrow> state" where
  "writeChars [] s = s"
| "writeChars (c # str) s =
     (if c \<noteq> NUL \<and> current_column s < 40 then
        (let s1 = write8 (of_char c) s;
             s2 = s1\<lparr>current_column := current_column s1 + 1\<rparr>;
             s3 = (if current_column s2 > max_line_size s2
                   then s2\<lparr>max_line_size := current_column s2\<rparr> else s2)
         in writeChars str s3)
      else s)"

text \<open>\<open>is_progmem\<close> only selects the memory the characters are read from.\<close>

definition writeString :: "string \<Rightarrow> bool \<Rightarrow> state \<Rightarrow> state" where
  "writeString str is_progmem s =
     (writeChars str (writeArduinoPin RS_PIN 1 s))\<lparr>scroll_counter := SCROLL_PAUSE\<rparr>"

subsection \<open>The staged outputs\<close>

text \<open>
  \<^verbatim>\<open>list_amount\<close> and \<^verbatim>\<open>list_address\<close> hold \<open>MAX_OUTPUTS\<close> character arrays each. The
  functions return the C return value and the new state.
\<close>

definition newOutputSeen :: "config \<Rightarrow> string \<Rightarrow> string \<Rightarrow> state \<Rightarrow> bool \<times> state" where
  "newOutputSeen cfg text_amount text_address s =
     (if unat (list_index s) \<ge> MAX_OUTPUTS then (True, s)
      else
        (let i = unat (list_index s);
             amount_dest = (strncpy text_amount (TEXT_AMOUNT_LENGTH cfg))
                             [TEXT_AMOUNT_LENGTH cfg - 1 := NUL];
             address_dest = (strncpy text_address (TEXT_ADDRESS_LENGTH cfg))
                              [TEXT_ADDRESS_LENGTH cfg - 1 := NUL]
         in (False, s\<lparr>list_amount := (list_amount s)[i := amount_dest],
                       list_address := (list_address s)[i := address_dest],
                       list_index := list_index s + 1\<rparr>)))"

definition setTransactionFee :: "config \<Rightarrow> string \<Rightarrow> state \<Rightarrow> state" where
  "setTransactionFee cfg text_amount s =
     s\<lparr>transaction_fee_amount :=
         (strncpy text_amount (TEXT_AMOUNT_LENGTH cfg))[TEXT_AMOUNT_LENGTH cfg - 1 := NUL],
       transaction_fee_set := True\<rparr>"

definition clearOutputsSeen :: "state \<Rightarrow> state" where
  "clearOutputsSeen s = s\<lparr>list_index := 0, transaction_fee_set := False\<rparr>"

subsection \<open>Waiting for the buttons\<close>

text \<open>
  The foreground busy-waits on \<^verbatim>\<open>accept_button\<close> and \<^verbatim>\<open>cancel_button\<close>, which are volatile
  and written by the interrupt only. In the model every read of one of them is preceded
  by the timer ticks that fired since the read before: the environment lists, read by
  read, the samples of those ticks (an empty list when no tick fired). A loop that finds
  the environment used up is still waiting, which is the result \<open>None\<close>. Ticks that fire
  while the foreground writes to the display are taken at the next read or delay.
\<close>

type_synonym env = "pins list list"

fun waitForNoButtonPress :: "state \<Rightarrow> env \<Rightarrow> (state \<times> env) option" where
  "waitForNoButtonPress s [] = None"
| "waitForNoButtonPress s (b1 # env) =
     (let s1 = isrs b1 s in
      if accept_button s1 then waitForNoButtonPress s1 env
      else (case env of
              [] \<Rightarrow> None
            | b2 # env' \<Rightarrow>
                (let s2 = isrs b2 s1 in
                 if cancel_button s2 then waitForNoButtonPress s2 env' else Some (s2, env'))))"

fun waitForButtonPress :: "state \<Rightarrow> env \<Rightarrow> (bool \<times> state \<times> env) option" where
  "waitForButtonPress s (b1 # b2 # env) =
     (let s1 = isrs b1 s;
          current_accept_button = accept_button s1;
          s2 = isrs b2 s1;
          current_cancel_button = cancel_button s2
      in if \<not> current_accept_button \<and> \<not> current_cancel_button then waitForButtonPress s2 env
         else if current_accept_button then Some (False, s2, env)
         else Some (True, s2, env))"
| "waitForButtonPress s env = None"

text \<open>A wait that returns has read the flags at least once, so it has used up input.\<close>

lemma waitForNoButtonPress_consumes:
  "waitForNoButtonPress s env = Some (s', env') \<Longrightarrow> length env' < length env"
proof (induction s env rule: waitForNoButtonPress.induct)
  case (1 s)
  then show ?case by simp
next
  case (2 s b1 env)
  show ?case
  proof (cases "accept_button (isrs b1 s)")
    case True
    with 2 show ?thesis by (fastforce simp: Let_def)
  next
    case False
    with 2 show ?thesis
      by (cases env) (fastforce simp: Let_def split: if_splits)+
  qed
qed

lemma waitForButtonPress_consumes:
  "waitForButtonPress s env = Some (r, s', env') \<Longrightarrow> length env' < length env"
proof (induction s env rule: waitForButtonPress.induct)
  case (1 s b1 b2 env)
  then show ?case by (fastforce simp: Let_def split: if_splits)
qed simp_all

subsection \<open>Asking the user\<close>

text \<open>
  Modelled from the spec: the enumeration \<^verbatim>\<open>AskUserCommand\<close> is declared in
  \<^verbatim>\<open>hwinterface.h\<close>, which is not among the sources. The first nine tags are the ones
  \<^verbatim>\<open>userDenied\<close> compares its argument with; \<open>ASKUSER_UNRECOGNISED\<close> stands for every
  other value.
\<close>

datatype AskUserCommand =
    ASKUSER_NUKE_WALLET
  | ASKUSER_NEW_ADDRESS
  | ASKUSER_SIGN_TRANSACTION
  | ASKUSER_FORMAT
  | ASKUSER_CHANGE_NAME
  | ASKUSER_BACKUP_WALLET
  | ASKUSER_RESTORE_WALLET
  | ASKUSER_CHANGE_KEY
  | ASKUSER_GET_MASTER_KEY
  | ASKUSER_UNRECOGNISED

definition str_delete_line0 :: string where "str_delete_line0 = ''Delete existing wallet''"

definition str_delete_line1 :: string where "str_delete_line1 = ''and start a new one?''"

definition str_new_line0 :: string where "str_new_line0 = ''Create new''"

definition str_new_line1 :: string where "str_new_line1 = ''address?''"

definition str_sign_part0 :: string where "str_sign_part0 = ''Sending ''"

definition str_sign_part1 :: string where "str_sign_part1 = '' BTC to''"

definition str_fee_part0 :: string where "str_fee_part0 = ''Transaction fee:''"

definition str_fee_part1 :: string where "str_fee_part1 = '' BTC''"

definition str_format_line0 :: string where "str_format_line0 = ''Do you want to''"

definition str_format_line1 :: string where "str_format_line1 = ''delete everything?''"

definition str_change_name_line0 :: string where "str_change_name_line0 = ''Change the name''"

definition str_change_name_line1 :: string where "str_change_name_line1 = ''of your wallet?''"

definition str_backup_line0 :: string where "str_backup_line0 = ''Do you want to do''"

definition str_backup_line1 :: string where "str_backup_line1 = ''a wallet backup?''"

definition str_restore_line0 :: string where "str_restore_line0 = ''Restore wallet''"

definition str_restore_line1 :: string where "str_restore_line1 = ''from backup?''"

definition str_change_key_line0 :: string where "str_change_key_line0 = ''Change the key''"

definition str_change_key_line1 :: string where "str_change_key_line1 = ''of your wallet?''"

definition str_get_master_key_line0 :: string where "str_get_master_key_line0 = ''Reveal master''"

definition str_get_master_key_line1 :: string where "str_get_master_key_line1 = ''public key?''"

definition str_unknown_line0 :: string where "str_unknown_line0 = ''Unknown command in userDenied()''"

definition str_unknown_line1 :: string where "str_unknown_line1 = ''Press any button to continue''"

definition str_stream_error :: string where "str_stream_error = ''Stream error''"

text \<open>
  The branches of \<^verbatim>\<open>userDenied\<close> other than the one for signing have the same body up to
  the two strings: wait for the buttons to be released, write the two lines, wait for a
  press.
\<close>

definition prompt :: "string \<Rightarrow> string \<Rightarrow> state \<Rightarrow> env \<Rightarrow> (bool \<times> state \<times> env) option" where
  "prompt line0 line1 s env =
     do {
       (s1, env1) \<leftarrow> waitForNoButtonPress s env;
       let s2 = writeString line0 True (gotoStartOfLine 0 s1);
       let s3 = writeString line1 True (gotoStartOfLine 1 s2);
       waitForButtonPress s3 env1
     }"

text \<open>The body of the loop over the staged outputs, up to \<^verbatim>\<open>r = waitForButtonPress()\<close>.\<close>

definition outputScreen :: "8 word \<Rightarrow> state \<Rightarrow> env \<Rightarrow> (bool \<times> state \<times> env) option" where
  "outputScreen i s env =
     do {
       (s1, env1) \<leftarrow> waitForNoButtonPress (clearLcd s) env;
       let s2 = writeString str_sign_part0 True (gotoStartOfLine 0 s1);
       let s3 = writeString (list_amount s2 ! unat i) False s2;
       let s4 = writeString str_sign_part1 True s3;
       let s5 = writeString (list_address s4 ! unat i) False (gotoStartOfLine 1 s4);
       waitForButtonPress s5 env1
     }"

lemma outputScreen_consumes:
  "outputScreen i s env = Some (r, s', env') \<Longrightarrow> length env' < length env"
  by (auto simp: outputScreen_def Let_def split: Option.bind_splits
      dest!: waitForNoButtonPress_consumes waitForButtonPress_consumes)

text \<open>
  \<^verbatim>\<open>for (i = 0; i < list_index; i++)\<close> with its \<^verbatim>\<open>break\<close>; \<open>r\<close> is the variable of that
  name. For \<open>i\<close> at or above \<open>MAX_OUTPUTS\<close> the C program reads outside its arrays; no
  function of the file lets \<^verbatim>\<open>list_index\<close> go above \<open>MAX_OUTPUTS\<close>.
\<close>

function signLoop :: "8 word \<Rightarrow> bool \<Rightarrow> state \<Rightarrow> env \<Rightarrow> (bool \<times> state \<times> env) option" where
  "signLoop i r s env =
     (if i < list_index s then
        (case outputScreen i s env of
           None \<Rightarrow> None
         | Some (r', s', env') \<Rightarrow> if r' then Some (r', s', env') else signLoop (i + 1) r' s' env')
      else Some (r, s, env))"
  by pat_completeness auto

termination
  by (relation "measure (\<lambda>(i, r, s, env). length env)") (auto dest: outputScreen_consumes)

declare signLoop.simps [simp del]

definition feeScreen :: "state \<Rightarrow> env \<Rightarrow> (bool \<times> state \<times> env) option" where
  "feeScreen s env =
     do {
       (s1, env1) \<leftarrow> waitForNoButtonPress (clearLcd s) env;
       let s2 = writeString str_fee_part0 True (gotoStartOfLine 0 s1);
       let s3 = writeString (transaction_fee_amount s2) False (gotoStartOfLine 1 s2);
       let s4 = writeString str_fee_part1 True s3;
       waitForButtonPress s4 env1
     }"

definition signTransaction :: "state \<Rightarrow> env \<Rightarrow> (bool \<times> state \<times> env) option" where
  "signTransaction s env =
     do {
       (r, s1, env1) \<leftarrow> signLoop 0 True s env;
       if \<not> r \<and> transaction_fee_set s1 then feeScreen s1 env1 else Some (r, s1, env1)
     }"

definition userDenied :: "AskUserCommand \<Rightarrow> state \<Rightarrow> env \<Rightarrow> (bool \<times> state \<times> env) option" where
  "userDenied command s env =
     do {
       let s0 = clearLcd s;
       (r, s1, env1) \<leftarrow>
         (if command = ASKUSER_NUKE_WALLET then prompt str_delete_line0 str_delete_line1 s0 env
          else if command = ASKUSER_NEW_ADDRESS then prompt str_new_line0 str_new_line1 s0 env
          else if command = ASKUSER_SIGN_TRANSACTION then signTransaction s0 env
          else if command = ASKUSER_FORMAT then prompt str_format_line0 str_format_line1 s0 env
          else if command = ASKUSER_CHANGE_NAME
            then prompt str_change_name_line0 str_change_name_line1 s0 env
          else if command = ASKUSER_BACKUP_WALLET
            then prompt str_backup_line0 str_backup_line1 s0 env
          else if command = ASKUSER_RESTORE_WALLET
            then prompt str_restore_line0 str_restore_line1 s0 env
          else if command = ASKUSER_CHANGE_KEY
            then prompt str_change_key_line0 str_change_key_line1 s0 env
          else if command = ASKUSER_GET_MASTER_KEY
            then prompt str_get_master_key_line0 str_get_master_key_line1 s0 env
          else do {
            (r', s1, env1) \<leftarrow> prompt str_unknown_line0 str_unknown_line1 s0 env;
            Some (True, s1, env1)
          });
       Some (r, clearLcd s1, env1)
     }"

definition streamError :: "state \<Rightarrow> state" where
  "streamError s = writeString str_stream_error True (gotoStartOfLine 0 (clearLcd s))"

subsection \<open>Showing the backup seed\<close>

definition nibbleToHex :: "8 word \<Rightarrow> char" where
  "nibbleToHex nibble =
     (let temp = nibble AND 0xf in
      if temp < 10 then char_of (of_char CHR ''0'' + unat temp)
      else char_of (of_char CHR ''a'' + (unat temp - 10)))"

definition str_seed_encrypted_or_not_line0 :: string where
  "str_seed_encrypted_or_not_line0 = ''Backup is''"

definition str_seed_encrypted_line1 :: string where
  "str_seed_encrypted_line1 = ''encrypted''"

definition str_seed_not_encrypted_line1 :: string where
  "str_seed_not_encrypted_line1 = ''not encrypted''"

text \<open>The screen that says whether the seed is encrypted, up to its \<^verbatim>\<open>waitForButtonPress()\<close>.\<close>

definition seedNotice :: "bool \<Rightarrow> state \<Rightarrow> env \<Rightarrow> (bool \<times> state \<times> env) option" where
  "seedNotice is_encrypted s env =
     do {
       (s1, env1) \<leftarrow> waitForNoButtonPress (clearLcd s) env;
       let s2 = writeString str_seed_encrypted_or_not_line0 True (gotoStartOfLine 0 s1);
       let s3 = gotoStartOfLine 1 s2;
       let s4 = (if is_encrypted then writeString str_seed_encrypted_line1 True s3
                 else writeString str_seed_not_encrypted_line1 True s3);
       waitForButtonPress s4 env1
     }"

text \<open>
  One byte of the seed: the array \<^verbatim>\<open>str\<close> is a space, two hexadecimal digits and NUL; it is
  written from its first character when \<^verbatim>\<open>byte_counter\<close> is even and from its second
  otherwise.
\<close>

definition writeSeedByte :: "8 word \<Rightarrow> 8 word \<Rightarrow> state \<Rightarrow> state" where
  "writeSeedByte byte_counter one_byte s =
     (let str = [CHR '' '', nibbleToHex (drop_bit 4 one_byte), nibbleToHex one_byte, NUL];
          s1 = (if byte_counter = 0 then gotoStartOfLine 0 s
                else if byte_counter = 6 then gotoStartOfLine 1 s
                else s)
      in if byte_counter AND 1 = 0 then writeString str False s1
         else writeString (tl str) False s1)"

text \<open>
  \<^verbatim>\<open>for (i = 0; i < SEED_LENGTH; i++)\<close>. The result carries a flag: True when the function
  returned from inside the loop (the user cancelled at the end of a page), False when the
  loop ran to its end. \<open>i\<close> is a \<^verbatim>\<open>uint8_t\<close> in C, so \<open>SEED_LENGTH\<close> has to be below 256; the
  model counts in \<open>nat\<close>. The array \<open>seed\<close> has \<open>SEED_LENGTH\<close> bytes.
\<close>

function seedLoop ::
  "config \<Rightarrow> 8 word list \<Rightarrow> nat \<Rightarrow> 8 word \<Rightarrow> state \<Rightarrow> env \<Rightarrow> (bool \<times> state \<times> env) option" where
  "seedLoop cfg seed i byte_counter s env =
     (if i < SEED_LENGTH cfg then
        (if byte_counter = 12 then
           (case waitForNoButtonPress s env of
              None \<Rightarrow> None
            | Some (s1, env1) \<Rightarrow>
                (case waitForButtonPress s1 env1 of
                   None \<Rightarrow> None
                 | Some (r, s2, env2) \<Rightarrow>
                     if r then Some (True, clearLcd s2, env2)
                     else seedLoop cfg seed (i + 1) (0 + 1)
                            (writeSeedByte 0 (seed ! i) (clearLcd s2)) env2))
         else seedLoop cfg seed (i + 1) (byte_counter + 1)
                (writeSeedByte byte_counter (seed ! i) s) env)
      else Some (False, s, env))"
  by pat_completeness auto

termination
  by (relation "measure (\<lambda>(cfg, seed, i, byte_counter, s, env). SEED_LENGTH cfg - i)") auto

declare seedLoop.simps [simp del]

definition writeBackupSeed ::
  "config \<Rightarrow> 8 word list \<Rightarrow> bool \<Rightarrow> 32 word \<Rightarrow> state \<Rightarrow> env \<Rightarrow> (bool \<times> state \<times> env) option" where
  "writeBackupSeed cfg seed is_encrypted destination_device s env =
     (if destination_device \<noteq> 0 then Some (True, s, env)
      else
        do {
          (r, s1, env1) \<leftarrow> seedNotice is_encrypted s env;
          if r then Some (True, clearLcd s1, env1)
          else
            do {
              (s2, env2) \<leftarrow> waitForNoButtonPress s1 env1;
              (cancelled, s3, env3) \<leftarrow> seedLoop cfg seed 0 0 s2 env2;
              if cancelled then Some (True, s3, env3)
              else
                do {
                  (s4, env4) \<leftarrow> waitForNoButtonPress s3 env3;
                  (r', s5, env5) \<leftarrow> waitForButtonPress s4 env4;
                  if r' then Some (True, clearLcd s5, env5)
                  else Some (False, clearLcd s5, env5)
                }
            }
        })"

section \<open>Notions used in the statements\<close>

text \<open>The staged transaction data, which only the staging functions write.\<close>

definition staged :: "state \<Rightarrow> string list \<times> string list \<times> 8 word \<times> bool \<times> string" where
  "staged s = (list_amount s, list_address s, list_index s, transaction_fee_set s,
     transaction_fee_amount s)"

text \<open>The samples of the timer ticks that fire during the next delay.\<close>

definition ticks_in_delay :: "state \<Rightarrow> pins list" where
  "ticks_in_delay s = (case delay_ticks s of [] \<Rightarrow> [] | ps # rest \<Rightarrow> ps)"

text \<open>
  One button as the interrupt treats it: the debounced flag and its counter, stepped by
  the level sampled from the pin. Both buttons of \<open>isr\<close> follow this step.
\<close>

definition debounce :: "bool \<Rightarrow> bool \<times> 8 word \<Rightarrow> bool \<times> 8 word" where
  "debounce temp bc =
     (if fst bc = temp
      then (if unat (snd bc + 1) = DEBOUNCE_COUNT then \<not> fst bc else fst bc, snd bc + 1)
      else (fst bc, 0))"

definition accept_channel :: "state \<Rightarrow> bool \<times> 8 word" where
  "accept_channel s = (accept_button s, accept_debounce s)"

definition cancel_channel :: "state \<Rightarrow> bool \<times> 8 word" where
  "cancel_channel s = (cancel_button s, cancel_debounce s)"

definition accept_level :: "pins \<Rightarrow> bool" where
  "accept_level p = (sampleArduinoPin ACCEPT_PIN p \<noteq> 0)"

definition cancel_level :: "pins \<Rightarrow> bool" where
  "cancel_level p = (sampleArduinoPin CANCEL_PIN p \<noteq> 0)"

text \<open>
  The buttons pull their pins low, so a sample reads "pressed" when it is 0. It disagrees
  with the debounced state when one says pressed and the other does not.
\<close>

definition accept_disagrees :: "pins \<Rightarrow> state \<Rightarrow> bool" where
  "accept_disagrees p s = ((sampleArduinoPin ACCEPT_PIN p = 0) \<noteq> accept_button s)"

definition cancel_disagrees :: "pins \<Rightarrow> state \<Rightarrow> bool" where
  "cancel_disagrees p s = ((sampleArduinoPin CANCEL_PIN p = 0) \<noteq> cancel_button s)"

text \<open>
  While the counter is below the threshold it counts the latest samples: each of them
  equalled the flag (which is how the code recognises a disagreeing sample), and the flag
  did not change during them.
\<close>

definition streak :: "bool list \<Rightarrow> bool \<times> 8 word \<Rightarrow> bool" where
  "streak ts bc0 =
     (let bc = fold debounce ts bc0 in
      unat (snd bc) < DEBOUNCE_COUNT \<longrightarrow>
        unat (snd bc) \<le> length ts \<and>
        (\<forall>j < unat (snd bc). ts ! (length ts - 1 - j) = fst bc) \<and>
        (\<forall>j \<le> unat (snd bc). fst (fold debounce (take (length ts - j) ts) bc0) = fst bc))"

text \<open>
  The operations that touch the cursor and scroll variables: a timer tick and the three
  display functions the foreground calls. \<open>run\<close> performs a list of them in order.
\<close>

datatype lcd_op = Tick pins | ClearLcd | GotoStartOfLine "8 word" | WriteString string bool

fun exec :: "lcd_op \<Rightarrow> state \<Rightarrow> state" where
  "exec (Tick p) s = isr p s"
| "exec ClearLcd s = clearLcd s"
| "exec (GotoStartOfLine line) s = gotoStartOfLine line s"
| "exec (WriteString str is_progmem) s = writeString str is_progmem s"

definition run :: "lcd_op list \<Rightarrow> state \<Rightarrow> state" where
  "run ops s = fold exec ops s"

text \<open>The invariant: the scroll position is 0, or the line is wider than the display and
  the position is at most the excess.\<close>

definition scroll_ok :: "state \<Rightarrow> bool" where
  "scroll_ok s \<longleftrightarrow>
     scroll_pos s = 0 \<or> unat (scroll_pos s) + NUM_COLUMNS \<le> unat (max_line_size s)"

text \<open>The two arrays have \<open>MAX_OUTPUTS\<close> rows.\<close>

definition wf_store :: "state \<Rightarrow> bool" where
  "wf_store s \<longleftrightarrow>
     length (list_amount s) = MAX_OUTPUTS \<and> length (list_address s) = MAX_OUTPUTS"

text \<open>
  What a loop that polled for ever would read: for each iteration the value of
  \<^verbatim>\<open>accept_button\<close> and then of \<^verbatim>\<open>cancel_button\<close> (each after the ticks that precede the
  read), with the state and the environment left after the second read.
\<close>

fun snapshots :: "state \<Rightarrow> env \<Rightarrow> ((bool \<times> bool) \<times> state \<times> env) list" where
  "snapshots s (b1 # b2 # env) =
     (let s1 = isrs b1 s; s2 = isrs b2 s1
      in ((accept_button s1, cancel_button s2), s2, env) # snapshots s2 env)"
| "snapshots s env = []"

text \<open>A snapshot in which at least one of the two flags is true.\<close>

definition pressed :: "(bool \<times> bool) \<times> state \<times> env \<Rightarrow> bool" where
  "pressed x = (fst (fst x) \<or> snd (fst x))"










section \<open>Concrete inputs\<close>

text \<open>
  The static variables as the C runtime leaves them before \<^verbatim>\<open>main\<close> (all zero), a choice
  of the three header constants, and the state after \<^verbatim>\<open>initLcdAndInput\<close>. The buttons pull
  their pins low: a sample of \<^verbatim>\<open>PIND\<close> of \<open>0xc0\<close> is both released, \<open>0x80\<close> accept held and
  \<open>0x40\<close> cancel held. \<open>user r\<close> is a user at one screen: both buttons are released for nine
  ticks, then one is held for nine ticks, accept when \<open>r\<close> is False and cancel when \<open>r\<close> is
  True, so that the screen's \<^verbatim>\<open>waitForButtonPress\<close> returns \<open>r\<close>.
\<close>

definition power_on :: "config \<Rightarrow> state" where
  "power_on cfg =
     \<lparr>current_column = 0, max_line_size = 0, scroll_pos = 0, scroll_to_left = 0,
      scroll_counter = 0, accept_button = False, cancel_button = False,
      accept_debounce = 0, cancel_debounce = 0,
      list_amount = replicate MAX_OUTPUTS (replicate (TEXT_AMOUNT_LENGTH cfg) NUL),
      list_address = replicate MAX_OUTPUTS (replicate (TEXT_ADDRESS_LENGTH cfg) NUL),
      list_index = 0, transaction_fee_set = False,
      transaction_fee_amount = replicate (TEXT_AMOUNT_LENGTH cfg) NUL,
      rs = False, lcd = [], delay_ticks = []\<rparr>"

definition example_config :: config where
  "example_config = \<lparr>TEXT_AMOUNT_LENGTH = 22, TEXT_ADDRESS_LENGTH = 36, SEED_LENGTH = 16\<rparr>"

definition started :: state where
  "started = initLcdAndInput (power_on example_config)"

definition user :: "bool \<Rightarrow> env" where
  "user r = [replicate 9 (0xc0, 0), [], replicate 9 (if r then (0x40, 0) else (0x80, 0)), []]"


definition fee_only :: state where
  "fee_only = setTransactionFee example_config ''0.0005'' started"

text \<open>Eight ticks with the accept button held down, and eight with the cancel button.\<close>

definition hold_accept :: "pins list" where
  "hold_accept = replicate 8 (0x80, 0)"

definition hold_cancel :: "pins list" where
  "hold_cancel = replicate 8 (0x40, 0)"

text \<open>A line of 22 characters and one of 10, each followed by a tick; and the first of the
  two states with the countdown about to expire at either edge.\<close>

definition long_line :: "lcd_op list" where
  "long_line = [ClearLcd, GotoStartOfLine 0, WriteString str_delete_line0 True, Tick (0xc0, 0)]"

definition short_line :: "lcd_op list" where
  "short_line = [ClearLcd, GotoStartOfLine 0, WriteString str_new_line0 True, Tick (0xc0, 0)]"

definition at_left_edge :: state where
  "at_left_edge = (run long_line started)\<lparr>scroll_counter := 1, scroll_to_left := 1\<rparr>"

definition at_right_edge :: state where
  "at_right_edge = (run long_line started)\<lparr>scroll_counter := 1, scroll_pos := 6\<rparr>"

text \<open>Three outputs to stage; the second amount and the second address are longer than
  the arrays of \<open>example_config\<close>.\<close>

definition amount_a :: string where "amount_a = ''0.01''"

definition address_a :: string where "address_a = ''1RaTTuSEN7jJUDiW1EGogHwtek7g9BiEn''"

definition amount_b :: string where "amount_b = ''20999999.9999999900000000''"

definition address_b :: string where "address_b = ''1RaTTuSEN7jJUDiW1EGogHwtek7g9BiEn1RaTTu''"

definition amount_c :: string where "amount_c = ''0.03''"

definition address_c :: string where "address_c = ''1RaTTuSEN7jJUDiW1EGogHwtek7g9BiEo''"

definition two_staged :: state where
  "two_staged =
     snd (newOutputSeen example_config amount_b address_b
       (snd (newOutputSeen example_config amount_a address_a started)))"

text \<open>Both buttons held down for the same eight ticks.\<close>

definition both_held :: env where
  "both_held = [replicate 8 (0, 0), []]"






section \<open>Properties\<close>

subsection \<open>What the display and the interrupt leave alone\<close>

lemma staged_update [simp]:
  "staged (s\<lparr>current_column := a\<rparr>) = staged s"
  "staged (s\<lparr>max_line_size := a\<rparr>) = staged s"
  "staged (s\<lparr>scroll_pos := a\<rparr>) = staged s"
  "staged (s\<lparr>scroll_to_left := a\<rparr>) = staged s"
  "staged (s\<lparr>scroll_counter := c\<rparr>) = staged s"
  "staged (s\<lparr>accept_button := b\<rparr>) = staged s"
  "staged (s\<lparr>cancel_button := b\<rparr>) = staged s"
  "staged (s\<lparr>accept_debounce := a\<rparr>) = staged s"
  "staged (s\<lparr>cancel_debounce := a\<rparr>) = staged s"
  "staged (s\<lparr>rs := b\<rparr>) = staged s"
  "staged (s\<lparr>lcd := l\<rparr>) = staged s"
  "staged (s\<lparr>delay_ticks := d\<rparr>) = staged s"
  by (simp_all add: staged_def)

lemma staged_write4 [simp]: "staged (write4 v s) = staged s"
  by (simp add: write4_def)

lemma staged_write8 [simp]: "staged (write8 v s) = staged s"
  by (simp add: write8_def)

lemma staged_writeArduinoPin [simp]: "staged (writeArduinoPin pin v s) = staged s"
  by (simp add: writeArduinoPin_def)

lemma staged_gotoStartOfLine [simp]: "staged (gotoStartOfLine line s) = staged s"
  by (simp add: gotoStartOfLine_def Let_def)

lemma staged_writeChars [simp]: "staged (writeChars str s) = staged s"
  by (induction str arbitrary: s) (simp_all add: Let_def)

lemma staged_writeString [simp]: "staged (writeString str pm s) = staged s"
  by (simp add: writeString_def)

lemma staged_isr_scroll [simp]: "staged (isr_scroll s) = staged s"
  by (simp add: isr_scroll_def Let_def)

lemma staged_isr_accept [simp]: "staged (isr_accept p s) = staged s"
  by (simp add: isr_accept_def Let_def)

lemma staged_isr_cancel [simp]: "staged (isr_cancel p s) = staged s"
  by (simp add: isr_cancel_def Let_def)

lemma staged_isr [simp]: "staged (isr p s) = staged s"
  by (simp add: isr_def)

lemma staged_isrs [simp]: "staged (isrs ps s) = staged s"
  unfolding isrs_def by (induction ps arbitrary: s) simp_all

lemma staged_delay_ms [simp]: "staged (delay_ms s) = staged s"
  by (simp add: delay_ms_def split: list.split)

lemma staged_clearLcd [simp]: "staged (clearLcd s) = staged s"
  by (simp add: clearLcd_def)



lemma staged_fields:
  "staged s' = staged s \<Longrightarrow> list_index s' = list_index s"
  "staged s' = staged s \<Longrightarrow> transaction_fee_set s' = transaction_fee_set s"
  "staged s' = staged s \<Longrightarrow> list_amount s' = list_amount s"
  "staged s' = staged s \<Longrightarrow> list_address s' = list_address s"
  "staged s' = staged s \<Longrightarrow> transaction_fee_amount s' = transaction_fee_amount s"
  by (simp_all add: staged_def)

subsection \<open>Ticks while the lines fit the display\<close>

lemma scroll_fields_write8 [simp]:
  "scroll_pos (write8 v s) = scroll_pos s" "max_line_size (write8 v s) = max_line_size s"
  "scroll_to_left (write8 v s) = scroll_to_left s" "scroll_counter (write8 v s) = scroll_counter s"
  "current_column (write8 v s) = current_column s"
  by (simp_all add: write8_def write4_def)

lemma scroll_fields_writeArduinoPin [simp]:
  "scroll_pos (writeArduinoPin pin v s) = scroll_pos s"
  "max_line_size (writeArduinoPin pin v s) = max_line_size s"
  "scroll_to_left (writeArduinoPin pin v s) = scroll_to_left s"
  "scroll_counter (writeArduinoPin pin v s) = scroll_counter s"
  "current_column (writeArduinoPin pin v s) = current_column s"
  by (simp_all add: writeArduinoPin_def)

lemma scroll_fields_isr_accept [simp]:
  "scroll_pos (isr_accept p s) = scroll_pos s" "max_line_size (isr_accept p s) = max_line_size s"
  "scroll_to_left (isr_accept p s) = scroll_to_left s"
  "scroll_counter (isr_accept p s) = scroll_counter s"
  by (simp_all add: isr_accept_def Let_def)

lemma scroll_fields_isr_cancel [simp]:
  "scroll_pos (isr_cancel p s) = scroll_pos s" "max_line_size (isr_cancel p s) = max_line_size s"
  "scroll_to_left (isr_cancel p s) = scroll_to_left s"
  "scroll_counter (isr_cancel p s) = scroll_counter s"
  by (simp_all add: isr_cancel_def Let_def)

lemma max_line_size_isr_scroll [simp]: "max_line_size (isr_scroll s) = max_line_size s"
  by (simp add: isr_scroll_def Let_def)

lemma display_isr_accept [simp]:
  "lcd (isr_accept p s) = lcd s" "rs (isr_accept p s) = rs s"
  "current_column (isr_accept p s) = current_column s"
  "delay_ticks (isr_accept p s) = delay_ticks s"
  by (simp_all add: isr_accept_def Let_def)

lemma display_isr_cancel [simp]:
  "lcd (isr_cancel p s) = lcd s" "rs (isr_cancel p s) = rs s"
  "current_column (isr_cancel p s) = current_column s"
  "delay_ticks (isr_cancel p s) = delay_ticks s"
  by (simp_all add: isr_cancel_def Let_def)

lemma cursor_isr_scroll [simp]:
  "current_column (isr_scroll s) = current_column s"
  "delay_ticks (isr_scroll s) = delay_ticks s"
  by (simp_all add: isr_scroll_def Let_def write8_def write4_def writeArduinoPin_def)

lemma isr_scroll_fits:
  assumes "unat (max_line_size s) \<le> NUM_COLUMNS"
  shows "lcd (isr_scroll s) = lcd s" "rs (isr_scroll s) = rs s"
    "scroll_pos (isr_scroll s) = scroll_pos s" "scroll_to_left (isr_scroll s) = scroll_to_left s"
  using assms by (simp_all add: isr_scroll_def Let_def)

lemma isr_cursor [simp]:
  "current_column (isr p s) = current_column s" "max_line_size (isr p s) = max_line_size s"
  "delay_ticks (isr p s) = delay_ticks s"
  by (simp_all add: isr_def)

lemma isr_fits:
  assumes "unat (max_line_size s) \<le> NUM_COLUMNS"
  shows "lcd (isr p s) = lcd s" "rs (isr p s) = rs s"
    "scroll_pos (isr p s) = scroll_pos s" "scroll_to_left (isr p s) = scroll_to_left s"
  using assms by (simp_all add: isr_def isr_scroll_fits)

lemma isrs_cursor [simp]:
  "current_column (isrs ps s) = current_column s" "max_line_size (isrs ps s) = max_line_size s"
  "delay_ticks (isrs ps s) = delay_ticks s"
  unfolding isrs_def by (induction ps arbitrary: s) simp_all

lemma isrs_fits:
  assumes "unat (max_line_size s) \<le> NUM_COLUMNS"
  shows "lcd (isrs ps s) = lcd s" "rs (isrs ps s) = rs s"
    "scroll_pos (isrs ps s) = scroll_pos s" "scroll_to_left (isrs ps s) = scroll_to_left s"
  using assms unfolding isrs_def by (induction ps arbitrary: s) (simp_all add: isr_fits)




subsection \<open>Clearing the display\<close>

text \<open>
  The state \<^verbatim>\<open>clearLcd\<close> has reached when its delay begins, and the ticks that fire during
  that delay.
\<close>

lemma clearLcd_delay:
  "clearLcd s =
     isrs (ticks_in_delay s)
       ((write8 0x01 (writeArduinoPin RS_PIN 0
          (s\<lparr>current_column := 0, max_line_size := 0, scroll_pos := 0, scroll_to_left := 0,
             scroll_counter := SCROLL_SPEED\<rparr>)))\<lparr>delay_ticks := tl (delay_ticks s)\<rparr>)"
  by (simp add: clearLcd_def delay_ms_def ticks_in_delay_def isrs_def write8_def write4_def
      writeArduinoPin_def split: list.split)

lemma lcd_clearLcd: "lcd (clearLcd s) = lcd s @ [(False, 0), (False, 1)]"
  unfolding clearLcd_delay
  by (subst isrs_fits) (simp_all add: write8_def write4_def writeArduinoPin_def RS_PIN_def)

lemma cleared_clearLcd:
  "current_column (clearLcd s) = 0" "max_line_size (clearLcd s) = 0"
  "scroll_pos (clearLcd s) = 0" "scroll_to_left (clearLcd s) = 0"
proof -
  show "current_column (clearLcd s) = 0" "max_line_size (clearLcd s) = 0"
    unfolding clearLcd_delay by simp_all
  show "scroll_pos (clearLcd s) = 0"
    unfolding clearLcd_delay by (subst isrs_fits) simp_all
  show "scroll_to_left (clearLcd s) = 0"
    unfolding clearLcd_delay by (subst isrs_fits) simp_all
qed

lemma rs_clearLcd: "rs (clearLcd s) = False"
  unfolding clearLcd_delay
  by (subst isrs_fits) (simp_all add: write8_def write4_def writeArduinoPin_def)


subsection \<open>Signing with no staged output\<close>

text \<open>
  C1 (as amended). When \<^verbatim>\<open>userDenied\<close> is called with \<open>ASKUSER_SIGN_TRANSACTION\<close> and no
  output is staged (\<open>list_index = 0\<close>), the loop over the outputs is skipped and the result
  is denied (True); whether or not a fee is set, no screen is shown and no button is read:
  the call only clears the display twice and leaves the environment untouched.
\<close>

theorem userDenied_sign_no_outputs:
  "list_index s = 0 \<Longrightarrow>
     userDenied ASKUSER_SIGN_TRANSACTION s env = Some (True, clearLcd (clearLcd s), env) \<and>
     lcd (clearLcd (clearLcd s)) = lcd s @ [(False, 0), (False, 1), (False, 0), (False, 1)]"
proof -
  assume "list_index s = 0"
  then have "list_index (clearLcd s) = 0"
    using staged_fields(1) [OF staged_clearLcd] by simp
  then have "signLoop 0 True (clearLcd s) env = Some (True, clearLcd s, env)"
    by (subst signLoop.simps) simp
  then have "signTransaction (clearLcd s) env = Some (True, clearLcd s, env)"
    by (simp add: signTransaction_def)
  then show ?thesis by (simp add: userDenied_def lcd_clearLcd)
qed

theorem userDenied_sign_no_outputs_witness:
  "list_index started = 0 \<and>
   userDenied ASKUSER_SIGN_TRANSACTION started (user False) =
     Some (True, clearLcd (clearLcd started), user False)"
proof -
  have h: "list_index started = 0" by code_simp
  show ?thesis using h userDenied_sign_no_outputs [OF h, of "user False"] by simp
qed

text \<open>
  C1 as the spec states it fails: with a fee set, no output staged and a user who would
  approve the fee screen (\<open>feeScreen\<close> on this input returns False), \<^verbatim>\<open>userDenied\<close> returns
  True without reading a button.
\<close>

theorem fee_screen_not_shown_without_outputs:
  "transaction_fee_set fee_only \<and> list_index fee_only = 0 \<and>
   map_option fst (feeScreen (clearLcd fee_only) (user False)) = Some False \<and>
   userDenied ASKUSER_SIGN_TRANSACTION fee_only (user False) =
     Some (True, clearLcd (clearLcd fee_only), user False)"
  by code_simp

subsection \<open>An unsupported backup destination\<close>

text \<open>
  C9. \<^verbatim>\<open>writeBackupSeed\<close> called with a \<open>destination_device\<close> other than 0 returns True at
  once: the state (display log, cursor and scroll variables included) and the environment
  are the ones it was called with.
\<close>

theorem writeBackupSeed_unsupported_destination:
  "destination_device \<noteq> 0 \<Longrightarrow>
     writeBackupSeed cfg seed is_encrypted destination_device s env = Some (True, s, env)"
  by (simp add: writeBackupSeed_def)

theorem writeBackupSeed_unsupported_destination_witness:
  "(1 :: 32 word) \<noteq> 0 \<and>
   writeBackupSeed example_config (replicate 16 0) False 1 started (user False) =
     Some (True, started, user False)"
  using writeBackupSeed_unsupported_destination
    [of 1 example_config "replicate 16 0" False started "user False"]
  by simp

subsection \<open>The display on return from \<^verbatim>\<open>userDenied\<close>\<close>




subsection \<open>Debouncing\<close>

lemma isr_scroll_buttons [simp]:
  "accept_button (isr_scroll s) = accept_button s"
  "accept_debounce (isr_scroll s) = accept_debounce s"
  "cancel_button (isr_scroll s) = cancel_button s"
  "cancel_debounce (isr_scroll s) = cancel_debounce s"
  by (simp_all add: isr_scroll_def Let_def write8_def write4_def writeArduinoPin_def)

lemma isr_cancel_accept [simp]:
  "accept_button (isr_cancel p s) = accept_button s"
  "accept_debounce (isr_cancel p s) = accept_debounce s"
  by (simp_all add: isr_cancel_def Let_def)

lemma isr_accept_cancel [simp]:
  "cancel_button (isr_accept p s) = cancel_button s"
  "cancel_debounce (isr_accept p s) = cancel_debounce s"
  by (simp_all add: isr_accept_def Let_def)

lemma accept_channel_isr_accept:
  "accept_channel (isr_accept p s) = debounce (accept_level p) (accept_channel s)"
  by (simp add: isr_accept_def accept_channel_def debounce_def accept_level_def Let_def)

lemma cancel_channel_isr_cancel:
  "cancel_channel (isr_cancel p s) = debounce (cancel_level p) (cancel_channel s)"
  by (simp add: isr_cancel_def cancel_channel_def debounce_def cancel_level_def Let_def)

lemma accept_channel_isr:
  "accept_channel (isr p s) = debounce (accept_level p) (accept_channel s)"
proof -
  have "accept_channel (isr p s) = accept_channel (isr_accept p (isr_scroll s))"
    by (simp add: isr_def accept_channel_def)
  also have "\<dots> = debounce (accept_level p) (accept_channel (isr_scroll s))"
    by (rule accept_channel_isr_accept)
  finally show ?thesis by (simp add: accept_channel_def)
qed

lemma cancel_channel_isr:
  "cancel_channel (isr p s) = debounce (cancel_level p) (cancel_channel s)"
proof -
  have "cancel_channel (isr p s) =
      debounce (cancel_level p) (cancel_channel (isr_accept p (isr_scroll s)))"
    unfolding isr_def by (rule cancel_channel_isr_cancel)
  then show ?thesis by (simp add: cancel_channel_def)
qed

lemma accept_channel_isrs:
  "accept_channel (isrs ps s) = fold debounce (map accept_level ps) (accept_channel s)"
  unfolding isrs_def by (induction ps arbitrary: s) (simp_all add: accept_channel_isr)

lemma cancel_channel_isrs:
  "cancel_channel (isrs ps s) = fold debounce (map cancel_level ps) (cancel_channel s)"
  unfolding isrs_def by (induction ps arbitrary: s) (simp_all add: cancel_channel_isr)

lemma accept_disagrees_level:
  "accept_disagrees p s \<longleftrightarrow> accept_level p = fst (accept_channel s)"
  by (auto simp: accept_disagrees_def accept_level_def accept_channel_def)

lemma cancel_disagrees_level:
  "cancel_disagrees p s \<longleftrightarrow> cancel_level p = fst (cancel_channel s)"
  by (auto simp: cancel_disagrees_def cancel_level_def cancel_channel_def)

lemma unat_suc8: "unat (c + 1 :: 8 word) = (if unat c = 255 then 0 else unat c + 1)"
  using unsigned_less [of c, where ?'a = nat] by (auto simp: unat_word_ariths)

lemma streak_run: "snd bc0 = 0 \<Longrightarrow> streak ts bc0"
proof (induction ts rule: rev_induct)
  case Nil
  then show ?case by (simp add: streak_def)
next
  case (snoc t ts)
  obtain b c where bc: "fold debounce ts bc0 = (b, c)" by (cases "fold debounce ts bc0")
  show ?case
  proof (cases "b = t")
    case False
    then show ?thesis using bc by (simp add: streak_def debounce_def)
  next
    case True
    have new: "fold debounce (ts @ [t]) bc0 =
        (if unat (c + 1) = DEBOUNCE_COUNT then \<not> b else b, c + 1)"
      using bc True by (simp add: debounce_def)
    show ?thesis
    proof (cases "unat (c + 1) < DEBOUNCE_COUNT")
      case False
      then show ?thesis using new by (simp add: streak_def)
    next
      case small: True
      show ?thesis
      proof (cases "unat c = 255")
        case True
        then show ?thesis using new by (simp add: streak_def unat_suc8 DEBOUNCE_COUNT_def)
      next
        case False
        then have suc: "unat (c + 1) = Suc (unat c)" by (simp add: unat_suc8)
        with small have c: "unat c < DEBOUNCE_COUNT" by simp
        from snoc bc c have len: "unat c \<le> length ts"
          and samples: "\<And>j. j < unat c \<Longrightarrow> ts ! (length ts - 1 - j) = b"
          and flags: "\<And>j. j \<le> unat c \<Longrightarrow> fst (fold debounce (take (length ts - j) ts) bc0) = b"
          by (simp_all add: streak_def)
        have "(ts @ [t]) ! (length ts - j) = b" if "j < Suc (unat c)" for j
        proof (cases j)
          case 0
          then show ?thesis using \<open>b = t\<close> by simp
        next
          case (Suc i)
          with that len have "length ts - j < length ts" "i < unat c" by simp_all
          then show ?thesis using samples [of i] Suc by (simp add: nth_append)
        qed
        moreover have "fst (fold debounce (take (Suc (length ts) - j) (ts @ [t])) bc0) = b"
          if "j \<le> Suc (unat c)" for j
        proof (cases j)
          case 0
          then show ?thesis using new small by simp
        next
          case (Suc i)
          with that have "i \<le> unat c" by simp
          then show ?thesis using flags [of i] Suc by simp
        qed
        ultimately show ?thesis using new small suc len by (simp add: streak_def)
      qed
    qed
  qed
qed

lemma flip_needs_streak:
  assumes "snd bc0 = 0" and "k < length ts"
    and "fst (fold debounce (take (Suc k) ts) bc0) \<noteq> fst (fold debounce (take k ts) bc0)"
  shows "DEBOUNCE_COUNT \<le> Suc k \<and>
    (\<forall>j < DEBOUNCE_COUNT. ts ! (k - j) = fst (fold debounce (take k ts) bc0) \<and>
       fst (fold debounce (take (k - j) ts) bc0) = fst (fold debounce (take k ts) bc0))"
proof -
  obtain b c where bc: "fold debounce (take k ts) bc0 = (b, c)"
    by (cases "fold debounce (take k ts) bc0")
  have step: "fold debounce (take (Suc k) ts) bc0 = debounce (ts ! k) (b, c)"
    using assms(2) bc by (simp add: take_Suc_conv_app_nth)
  with assms(3) bc have eq: "b = ts ! k" and cnt: "unat (c + 1) = DEBOUNCE_COUNT"
    by (auto simp: debounce_def split: if_splits)
  then have c7: "unat c = 7" by (auto simp: unat_suc8 DEBOUNCE_COUNT_def split: if_splits)
  have "streak (take k ts) bc0" using assms(1) by (rule streak_run)
  with bc c7 assms(2) have len: "7 \<le> k"
    and samples: "\<And>j. j < 7 \<Longrightarrow> take k ts ! (k - Suc j) = b"
    and flags: "\<And>j. j \<le> 7 \<Longrightarrow> fst (fold debounce (take (k - j) ts) bc0) = b"
    by (auto simp: streak_def DEBOUNCE_COUNT_def min_def)
  have "ts ! (k - j) = b \<and> fst (fold debounce (take (k - j) ts) bc0) = b" if "j < 8" for j
  proof (cases j)
    case 0
    then show ?thesis using eq bc by simp
  next
    case (Suc i)
    with that len have i: "i < 7" "k - Suc i < k" by simp_all
    then show ?thesis using samples [of i] flags [of j] that Suc by simp
  qed
  then show ?thesis using len bc by (simp add: DEBOUNCE_COUNT_def)
qed

lemma channel_flip_needs_streak:
  assumes run: "\<And>n. fst (chan (isrs (take n ps) s0)) =
        fst (fold debounce (take n (map level ps)) (chan s0))"
    and "snd (chan s0) = 0" and "k < length ps"
    and "fst (chan (isrs (take (Suc k) ps) s0)) \<noteq> fst (chan (isrs (take k ps) s0))"
  shows "DEBOUNCE_COUNT \<le> Suc k \<and>
    (\<forall>j < DEBOUNCE_COUNT. level (ps ! (k - j)) = fst (chan (isrs (take (k - j) ps) s0)) \<and>
       fst (chan (isrs (take (k - j) ps) s0)) = fst (chan (isrs (take k ps) s0)))"
proof -
  let ?ts = "map level ps"
  have "k < length ?ts" using assms(3) by simp
  moreover have "fst (fold debounce (take (Suc k) ?ts) (chan s0)) \<noteq>
      fst (fold debounce (take k ?ts) (chan s0))"
    using assms(4) unfolding run .
  ultimately have *: "DEBOUNCE_COUNT \<le> Suc k \<and>
    (\<forall>j < DEBOUNCE_COUNT. ?ts ! (k - j) = fst (fold debounce (take k ?ts) (chan s0)) \<and>
       fst (fold debounce (take (k - j) ?ts) (chan s0)) =
       fst (fold debounce (take k ?ts) (chan s0)))"
    using assms(2) by (intro flip_needs_streak)
  have "level (ps ! (k - j)) = fst (chan (isrs (take (k - j) ps) s0)) \<and>
       fst (chan (isrs (take (k - j) ps) s0)) = fst (chan (isrs (take k ps) s0))"
    if "j < DEBOUNCE_COUNT" for j
  proof -
    have "k - j < length ps" using assms(3) by simp
    then have "?ts ! (k - j) = level (ps ! (k - j))" by simp
    with * that show ?thesis by (simp add: run)
  qed
  with * show ?thesis by blast
qed

lemma debounce_single:
  assumes "unat c + 1 \<noteq> DEBOUNCE_COUNT" and "t = b" and "t' \<noteq> b"
  shows "debounce t (b, c) = (b, c + 1)" and "debounce t' (debounce t (b, c)) = (b, 0)"
  using assms by (auto simp: debounce_def unat_suc8 DEBOUNCE_COUNT_def)

lemma accept_flip_needs_streak:
  assumes "accept_debounce s0 = 0" and "k < length ps"
    and "accept_button (isrs (take (Suc k) ps) s0) \<noteq> accept_button (isrs (take k ps) s0)"
  shows "DEBOUNCE_COUNT \<le> Suc k \<and>
    (\<forall>j < DEBOUNCE_COUNT. accept_disagrees (ps ! (k - j)) (isrs (take (k - j) ps) s0) \<and>
       accept_button (isrs (take (k - j) ps) s0) = accept_button (isrs (take k ps) s0))"
proof -
  from assms have "snd (accept_channel s0) = 0" "k < length ps"
    "fst (accept_channel (isrs (take (Suc k) ps) s0)) \<noteq> fst (accept_channel (isrs (take k ps) s0))"
    by (simp_all add: accept_channel_def)
  moreover have "fst (accept_channel (isrs (take n ps) s0)) =
      fst (fold debounce (take n (map accept_level ps)) (accept_channel s0))" for n
    by (simp add: accept_channel_isrs take_map)
  ultimately have "DEBOUNCE_COUNT \<le> Suc k \<and>
    (\<forall>j < DEBOUNCE_COUNT.
       accept_level (ps ! (k - j)) = fst (accept_channel (isrs (take (k - j) ps) s0)) \<and>
       fst (accept_channel (isrs (take (k - j) ps) s0)) =
       fst (accept_channel (isrs (take k ps) s0)))"
    using channel_flip_needs_streak [of accept_channel ps s0 accept_level k] by blast
  then show ?thesis
    by (simp add: accept_disagrees_level) (simp add: accept_channel_def)
qed

lemma cancel_flip_needs_streak:
  assumes "cancel_debounce s0 = 0" and "k < length ps"
    and "cancel_button (isrs (take (Suc k) ps) s0) \<noteq> cancel_button (isrs (take k ps) s0)"
  shows "DEBOUNCE_COUNT \<le> Suc k \<and>
    (\<forall>j < DEBOUNCE_COUNT. cancel_disagrees (ps ! (k - j)) (isrs (take (k - j) ps) s0) \<and>
       cancel_button (isrs (take (k - j) ps) s0) = cancel_button (isrs (take k ps) s0))"
proof -
  from assms have "snd (cancel_channel s0) = 0" "k < length ps"
    "fst (cancel_channel (isrs (take (Suc k) ps) s0)) \<noteq> fst (cancel_channel (isrs (take k ps) s0))"
    by (simp_all add: cancel_channel_def)
  moreover have "fst (cancel_channel (isrs (take n ps) s0)) =
      fst (fold debounce (take n (map cancel_level ps)) (cancel_channel s0))" for n
    by (simp add: cancel_channel_isrs take_map)
  ultimately have "DEBOUNCE_COUNT \<le> Suc k \<and>
    (\<forall>j < DEBOUNCE_COUNT.
       cancel_level (ps ! (k - j)) = fst (cancel_channel (isrs (take (k - j) ps) s0)) \<and>
       fst (cancel_channel (isrs (take (k - j) ps) s0)) =
       fst (cancel_channel (isrs (take k ps) s0)))"
    using channel_flip_needs_streak [of cancel_channel ps s0 cancel_level k] by blast
  then show ?thesis
    by (simp add: cancel_disagrees_level) (simp add: cancel_channel_def)
qed

lemma accept_single_disagreement:
  assumes "unat (accept_debounce s) + 1 \<noteq> DEBOUNCE_COUNT"
    and "accept_disagrees p s" and "\<not> accept_disagrees q (isr p s)"
  shows "accept_button (isr p s) = accept_button s \<and>
    accept_button (isr q (isr p s)) = accept_button s \<and> accept_debounce (isr q (isr p s)) = 0"
proof -
  have 1: "accept_channel (isr p s) = (accept_button s, accept_debounce s + 1)"
    using assms(1,2) unfolding accept_channel_isr
    by (simp add: accept_disagrees_level accept_channel_def debounce_single(1))
  with assms(3) have "accept_level q \<noteq> accept_button s"
    by (simp add: accept_disagrees_level)
  with assms(1,2) have "accept_channel (isr q (isr p s)) = (accept_button s, 0)"
    unfolding accept_channel_isr [of q] accept_channel_isr [of p]
    by (simp add: accept_disagrees_level accept_channel_def debounce_single(2))
  with 1 show ?thesis by (simp add: accept_channel_def)
qed

lemma cancel_single_disagreement:
  assumes "unat (cancel_debounce s) + 1 \<noteq> DEBOUNCE_COUNT"
    and "cancel_disagrees p s" and "\<not> cancel_disagrees q (isr p s)"
  shows "cancel_button (isr p s) = cancel_button s \<and>
    cancel_button (isr q (isr p s)) = cancel_button s \<and> cancel_debounce (isr q (isr p s)) = 0"
proof -
  have 1: "cancel_channel (isr p s) = (cancel_button s, cancel_debounce s + 1)"
    using assms(1,2) unfolding cancel_channel_isr
    by (simp add: cancel_disagrees_level cancel_channel_def debounce_single(1))
  with assms(3) have "cancel_level q \<noteq> cancel_button s"
    by (simp add: cancel_disagrees_level)
  with assms(1,2) have "cancel_channel (isr q (isr p s)) = (cancel_button s, 0)"
    unfolding cancel_channel_isr [of q] cancel_channel_isr [of p]
    by (simp add: cancel_disagrees_level cancel_channel_def debounce_single(2))
  with 1 show ?thesis by (simp add: cancel_channel_def)
qed

text \<open>
  C3. Feed any samples \<open>ps\<close>, tick by tick, to the interrupt, starting from a state whose
  debounce counters are 0 (as \<^verbatim>\<open>initLcdAndInput\<close> leaves them). If the debounced state of
  a button changes at tick \<open>k\<close>, then \<open>k\<close> is at least the eighth tick and each of the
  \<open>DEBOUNCE_COUNT = 8\<close> ticks up to and including \<open>k\<close> had a raw sample that disagreed with
  the debounced state of its time, which did not change during them. And in any state
  whose counter is not one short of the threshold (so the sample is not the eighth
  disagreeing one in a row; in particular when the counter is 0), a disagreeing sample
  followed by an agreeing one flips nothing and leaves the counter at 0. Both hold for the
  accept and for the cancel button.
\<close>

theorem debounce_flip_needs_eight_disagreeing_ticks:
  "(accept_debounce s0 = 0 \<longrightarrow>
      (\<forall>k < length ps.
         accept_button (isrs (take (Suc k) ps) s0) \<noteq> accept_button (isrs (take k ps) s0) \<longrightarrow>
         DEBOUNCE_COUNT \<le> Suc k \<and>
         (\<forall>j < DEBOUNCE_COUNT.
            accept_disagrees (ps ! (k - j)) (isrs (take (k - j) ps) s0) \<and>
            accept_button (isrs (take (k - j) ps) s0) = accept_button (isrs (take k ps) s0)))) \<and>
   (cancel_debounce s0 = 0 \<longrightarrow>
      (\<forall>k < length ps.
         cancel_button (isrs (take (Suc k) ps) s0) \<noteq> cancel_button (isrs (take k ps) s0) \<longrightarrow>
         DEBOUNCE_COUNT \<le> Suc k \<and>
         (\<forall>j < DEBOUNCE_COUNT.
            cancel_disagrees (ps ! (k - j)) (isrs (take (k - j) ps) s0) \<and>
            cancel_button (isrs (take (k - j) ps) s0) = cancel_button (isrs (take k ps) s0)))) \<and>
   (unat (accept_debounce s) + 1 \<noteq> DEBOUNCE_COUNT \<and> accept_disagrees p s \<and>
      \<not> accept_disagrees q (isr p s) \<longrightarrow>
      accept_button (isr p s) = accept_button s \<and>
      accept_button (isr q (isr p s)) = accept_button s \<and>
      accept_debounce (isr q (isr p s)) = 0) \<and>
   (unat (cancel_debounce s) + 1 \<noteq> DEBOUNCE_COUNT \<and> cancel_disagrees p s \<and>
      \<not> cancel_disagrees q (isr p s) \<longrightarrow>
      cancel_button (isr p s) = cancel_button s \<and>
      cancel_button (isr q (isr p s)) = cancel_button s \<and>
      cancel_debounce (isr q (isr p s)) = 0)"
  using accept_flip_needs_streak [of s0 _ ps] cancel_flip_needs_streak [of s0 _ ps]
    accept_single_disagreement [of s p q] cancel_single_disagreement [of s p q]
  by blast

theorem debounce_flip_needs_eight_disagreeing_ticks_witness:
  "accept_debounce started = 0 \<and>
   accept_button (isrs (take (Suc 7) hold_accept) started) \<noteq>
     accept_button (isrs (take 7 hold_accept) started) \<and>
   DEBOUNCE_COUNT \<le> Suc 7 \<and>
   accept_disagrees (hold_accept ! (7 - 7)) (isrs (take (7 - 7) hold_accept) started) \<and>
   accept_button (isrs (take (7 - 7) hold_accept) started) =
     accept_button (isrs (take 7 hold_accept) started) \<and>
   accept_disagrees (0x80, 0) started \<and> \<not> accept_disagrees (0xc0, 0) (isr (0x80, 0) started) \<and>
   accept_button (isr (0xc0, 0) (isr (0x80, 0) started)) = accept_button started \<and>
   accept_debounce (isr (0xc0, 0) (isr (0x80, 0) started)) = 0 \<and>
   cancel_debounce started = 0 \<and>
   cancel_button (isrs (take (Suc 7) hold_cancel) started) \<noteq>
     cancel_button (isrs (take 7 hold_cancel) started) \<and>
   cancel_disagrees (hold_cancel ! (7 - 7)) (isrs (take (7 - 7) hold_cancel) started) \<and>
   cancel_button (isrs (take (7 - 7) hold_cancel) started) =
     cancel_button (isrs (take 7 hold_cancel) started) \<and>
   cancel_disagrees (0x40, 0) started \<and> \<not> cancel_disagrees (0xc0, 0) (isr (0x40, 0) started) \<and>
   cancel_button (isr (0xc0, 0) (isr (0x40, 0) started)) = cancel_button started \<and>
   cancel_debounce (isr (0xc0, 0) (isr (0x40, 0) started)) = 0"
proof -
  have h1: "accept_debounce started = 0" by code_simp
  have h2: "(7::nat) < length hold_accept" by code_simp
  have h3: "accept_button (isrs (take (Suc 7) hold_accept) started) \<noteq>
      accept_button (isrs (take 7 hold_accept) started)" by code_simp
  have h4: "(7::nat) < DEBOUNCE_COUNT" by code_simp
  have h5: "unat (accept_debounce started) + 1 \<noteq> DEBOUNCE_COUNT" by code_simp
  have h6: "accept_disagrees (0x80, 0) started" by code_simp
  have h7: "\<not> accept_disagrees (0xc0, 0) (isr (0x80, 0) started)" by code_simp
  have c1: "cancel_debounce started = 0" by code_simp
  have c2: "(7::nat) < length hold_cancel" by code_simp
  have c3: "cancel_button (isrs (take (Suc 7) hold_cancel) started) \<noteq>
      cancel_button (isrs (take 7 hold_cancel) started)" by code_simp
  have c5: "unat (cancel_debounce started) + 1 \<noteq> DEBOUNCE_COUNT" by code_simp
  have c6: "cancel_disagrees (0x40, 0) started" by code_simp
  have c7: "\<not> cancel_disagrees (0xc0, 0) (isr (0x40, 0) started)" by code_simp
  note T = debounce_flip_needs_eight_disagreeing_ticks
    [of started hold_accept started "(0x80, 0)" "(0xc0, 0)"]
  note U = debounce_flip_needs_eight_disagreeing_ticks
    [of started hold_cancel started "(0x40, 0)" "(0xc0, 0)"]
  from T h1 h2 h3 have "DEBOUNCE_COUNT \<le> Suc 7 \<and>
      (\<forall>j < DEBOUNCE_COUNT.
         accept_disagrees (hold_accept ! (7 - j)) (isrs (take (7 - j) hold_accept) started) \<and>
         accept_button (isrs (take (7 - j) hold_accept) started) =
         accept_button (isrs (take 7 hold_accept) started))"
    by blast
  with h4 have A: "DEBOUNCE_COUNT \<le> Suc 7 \<and>
      accept_disagrees (hold_accept ! (7 - 7)) (isrs (take (7 - 7) hold_accept) started) \<and>
      accept_button (isrs (take (7 - 7) hold_accept) started) =
      accept_button (isrs (take 7 hold_accept) started)"
    by blast
  from T h5 h6 h7
  have B: "accept_button (isr (0xc0, 0) (isr (0x80, 0) started)) = accept_button started \<and>
      accept_debounce (isr (0xc0, 0) (isr (0x80, 0) started)) = 0"
    by blast
  from U c1 c2 c3 have "DEBOUNCE_COUNT \<le> Suc 7 \<and>
      (\<forall>j < DEBOUNCE_COUNT.
         cancel_disagrees (hold_cancel ! (7 - j)) (isrs (take (7 - j) hold_cancel) started) \<and>
         cancel_button (isrs (take (7 - j) hold_cancel) started) =
         cancel_button (isrs (take 7 hold_cancel) started))"
    by blast
  with h4 have C: "cancel_disagrees (hold_cancel ! (7 - 7)) (isrs (take (7 - 7) hold_cancel) started) \<and>
      cancel_button (isrs (take (7 - 7) hold_cancel) started) =
      cancel_button (isrs (take 7 hold_cancel) started)"
    by blast
  from U c5 c6 c7
  have D: "cancel_button (isr (0xc0, 0) (isr (0x40, 0) started)) = cancel_button started \<and>
      cancel_debounce (isr (0xc0, 0) (isr (0x40, 0) started)) = 0"
    by blast
  show ?thesis using h1 h3 A h6 h7 B c1 c3 C c6 c7 D by blast
qed

text \<open>
  C2 fails on the code. The interrupt increments the counter and flips the flag when the
  counter equals \<open>DEBOUNCE_COUNT\<close>, but it does not reset the counter then. With the accept
  button held for eight ticks the flag flips and the counter stays at 8; a released sample
  on the next tick takes it to 9, and eight released samples in a row take it to 16
  without the flag flipping back.
\<close>

theorem debounce_counter_not_reset_on_flip:
  "accept_button (isrs (replicate 8 (0x80, 0)) started) \<and>
   accept_debounce (isrs (replicate 8 (0x80, 0)) started) = 8 \<and>
   accept_debounce (isrs (replicate 8 (0x80, 0) @ [(0xc0, 0)]) started) = 9 \<and>
   accept_button (isrs (replicate 8 (0x80, 0) @ replicate 8 (0xc0, 0)) started) \<and>
   accept_debounce (isrs (replicate 8 (0x80, 0) @ replicate 8 (0xc0, 0)) started) = 16"
  by code_simp

subsection \<open>Scrolling\<close>

lemma scroll_pos_isr_scroll_fits:
  "unat (max_line_size s) \<le> NUM_COLUMNS \<Longrightarrow> scroll_pos (isr_scroll s) = scroll_pos s"
  by (simp add: isr_scroll_def Let_def)

lemma unat_pred8: "c \<noteq> 0 \<Longrightarrow> unat (c - 1 :: 8 word) = unat c - 1"
  by (simp add: unat_minus_one)

lemma scroll_pos_isr_scroll:
  "scroll_pos (isr_scroll s) =
     (if scroll_counter s = 1 \<and> NUM_COLUMNS < unat (max_line_size s) then
        (if scroll_to_left s \<noteq> 0 then (if scroll_pos s = 0 then 0 else scroll_pos s - 1)
         else if unat (scroll_pos s) + NUM_COLUMNS = unat (max_line_size s) then scroll_pos s
         else scroll_pos s + 1)
      else scroll_pos s)"
proof -
  have "int (unat (scroll_pos s)) = int (unat (max_line_size s)) - int NUM_COLUMNS \<longleftrightarrow>
      unat (scroll_pos s) + NUM_COLUMNS = unat (max_line_size s)"
    if "NUM_COLUMNS < unat (max_line_size s)"
    using that by presburger
  then show ?thesis
    by (simp add: isr_scroll_def Let_def del: of_nat_unat)
qed

lemma scroll_ok_isr_scroll: "scroll_ok s \<Longrightarrow> scroll_ok (isr_scroll s)"
proof -
  assume ok: "scroll_ok s"
  have "unat (max_line_size s) < 256"
    using unsigned_less [of "max_line_size s", where ?'a = nat] by simp
  with ok show ?thesis
    by (auto simp: scroll_ok_def scroll_pos_isr_scroll unat_pred8 unat_suc8)
qed

lemma scroll_ok_isr: "scroll_ok s \<Longrightarrow> scroll_ok (isr p s)"
proof -
  assume "scroll_ok s"
  then have "scroll_ok (isr_scroll s)" by (rule scroll_ok_isr_scroll)
  then show ?thesis by (simp add: isr_def scroll_ok_def)
qed

lemma scroll_ok_clearLcd: "scroll_ok (clearLcd s)"
  by (simp add: scroll_ok_def cleared_clearLcd)

lemma scroll_ok_gotoStartOfLine: "scroll_ok s \<Longrightarrow> scroll_ok (gotoStartOfLine line s)"
  by (simp add: scroll_ok_def gotoStartOfLine_def Let_def)

lemma writeChars_scroll:
  "scroll_pos (writeChars str s) = scroll_pos s \<and>
   unat (max_line_size s) \<le> unat (max_line_size (writeChars str s))"
proof (induction str arbitrary: s)
  case Nil
  then show ?case by simp
next
  case (Cons c str)
  let ?s2 = "(write8 (of_char c) s)\<lparr>current_column := current_column (write8 (of_char c) s) + 1\<rparr>"
  let ?s3 = "if current_column ?s2 > max_line_size ?s2
             then ?s2\<lparr>max_line_size := current_column ?s2\<rparr> else ?s2"
  have "scroll_pos ?s3 = scroll_pos s" by simp
  moreover have "unat (max_line_size s) \<le> unat (max_line_size ?s3)"
    by (simp add: word_less_nat_alt)
  ultimately show ?case using Cons [of ?s3] by (simp add: Let_def)
qed

lemma scroll_ok_writeString: "scroll_ok s \<Longrightarrow> scroll_ok (writeString str is_progmem s)"
  using writeChars_scroll [of str "writeArduinoPin RS_PIN 1 s"]
  by (auto simp: scroll_ok_def writeString_def)

lemma scroll_ok_exec: "scroll_ok s \<Longrightarrow> scroll_ok (exec op s)"
  by (cases op)
    (simp_all add: scroll_ok_isr scroll_ok_clearLcd scroll_ok_gotoStartOfLine scroll_ok_writeString)

lemma scroll_ok_run: "scroll_ok s \<Longrightarrow> scroll_ok (run ops s)"
  unfolding run_def by (induction ops arbitrary: s) (simp_all add: scroll_ok_exec)

lemma isr_scroll_left_edge:
  assumes "scroll_counter s = 1" "NUM_COLUMNS < unat (max_line_size s)"
    "scroll_to_left s \<noteq> 0" "scroll_pos s = 0"
  shows "scroll_pos (isr_scroll s) = 0 \<and> scroll_to_left (isr_scroll s) = 0"
  using assms by (simp add: isr_scroll_def Let_def)

lemma isr_scroll_right_edge:
  assumes "scroll_counter s = 1" "NUM_COLUMNS < unat (max_line_size s)"
    "scroll_to_left s = 0" "unat (scroll_pos s) = unat (max_line_size s) - NUM_COLUMNS"
  shows "scroll_pos (isr_scroll s) = scroll_pos s \<and> scroll_to_left (isr_scroll s) = 1"
  using assms by (simp add: isr_scroll_def Let_def)

text \<open>
  C6. Start with the scroll position at 0 (as at power-on and after any \<^verbatim>\<open>clearLcd\<close>) and
  perform any sequence of ticks, clears, cursor moves and writes. Afterwards the scroll
  position is at most \<open>max_line_size - NUM_COLUMNS\<close> when the line is wider than the display
  (and not below 0, being unsigned), and it is 0 when the line fits. In any state, a tick
  does not change the scroll position when \<open>max_line_size \<le> NUM_COLUMNS\<close>. When the line is
  wider and the countdown expires on this tick (\<open>scroll_counter = 1\<close>), a tick that finds the
  position at the edge it is moving towards (0 when moving left, \<open>max_line_size -
  NUM_COLUMNS\<close> when moving right) reverses the direction and leaves the position alone.
\<close>

theorem scroll_position_in_range:
  "(scroll_pos s0 = 0 \<longrightarrow>
      (NUM_COLUMNS < unat (max_line_size (run ops s0)) \<longrightarrow>
         unat (scroll_pos (run ops s0)) \<le> unat (max_line_size (run ops s0)) - NUM_COLUMNS) \<and>
      (unat (max_line_size (run ops s0)) \<le> NUM_COLUMNS \<longrightarrow> scroll_pos (run ops s0) = 0)) \<and>
   (unat (max_line_size s) \<le> NUM_COLUMNS \<longrightarrow> scroll_pos (isr p s) = scroll_pos s) \<and>
   (scroll_counter s = 1 \<and> NUM_COLUMNS < unat (max_line_size s) \<and>
      scroll_to_left s \<noteq> 0 \<and> scroll_pos s = 0 \<longrightarrow>
      scroll_pos (isr p s) = 0 \<and> scroll_to_left (isr p s) = 0) \<and>
   (scroll_counter s = 1 \<and> NUM_COLUMNS < unat (max_line_size s) \<and>
      scroll_to_left s = 0 \<and> unat (scroll_pos s) = unat (max_line_size s) - NUM_COLUMNS \<longrightarrow>
      scroll_pos (isr p s) = scroll_pos s \<and> scroll_to_left (isr p s) = 1)"
proof -
  have "scroll_ok (run ops s0)" if "scroll_pos s0 = 0"
    using that by (intro scroll_ok_run) (simp add: scroll_ok_def)
  then have 1: "scroll_pos s0 = 0 \<longrightarrow>
      (NUM_COLUMNS < unat (max_line_size (run ops s0)) \<longrightarrow>
         unat (scroll_pos (run ops s0)) \<le> unat (max_line_size (run ops s0)) - NUM_COLUMNS) \<and>
      (unat (max_line_size (run ops s0)) \<le> NUM_COLUMNS \<longrightarrow> scroll_pos (run ops s0) = 0)"
    using unat_0_iff [of "scroll_pos (run ops s0)"] by (auto simp: scroll_ok_def)
  have 2: "unat (max_line_size s) \<le> NUM_COLUMNS \<longrightarrow> scroll_pos (isr p s) = scroll_pos s"
    by (simp add: isr_def scroll_pos_isr_scroll_fits)
  have 3: "scroll_counter s = 1 \<and> NUM_COLUMNS < unat (max_line_size s) \<and>
      scroll_to_left s \<noteq> 0 \<and> scroll_pos s = 0 \<longrightarrow>
      scroll_pos (isr p s) = 0 \<and> scroll_to_left (isr p s) = 0"
    using isr_scroll_left_edge [of s] by (simp add: isr_def)
  have 4: "scroll_counter s = 1 \<and> NUM_COLUMNS < unat (max_line_size s) \<and>
      scroll_to_left s = 0 \<and> unat (scroll_pos s) = unat (max_line_size s) - NUM_COLUMNS \<longrightarrow>
      scroll_pos (isr p s) = scroll_pos s \<and> scroll_to_left (isr p s) = 1"
    using isr_scroll_right_edge [of s] by (simp add: isr_def)
  from 1 2 3 4 show ?thesis by (intro conjI)
qed

theorem scroll_position_in_range_witness:
  "scroll_pos started = 0 \<and>
   NUM_COLUMNS < unat (max_line_size (run long_line started)) \<and>
   unat (scroll_pos (run long_line started)) \<le>
     unat (max_line_size (run long_line started)) - NUM_COLUMNS \<and>
   unat (max_line_size (run short_line started)) \<le> NUM_COLUMNS \<and>
   scroll_pos (run short_line started) = 0 \<and>
   scroll_pos (isr (0xc0, 0) (run short_line started)) = scroll_pos (run short_line started) \<and>
   scroll_counter at_left_edge = 1 \<and> NUM_COLUMNS < unat (max_line_size at_left_edge) \<and>
   scroll_to_left at_left_edge \<noteq> 0 \<and> scroll_pos at_left_edge = 0 \<and>
   scroll_pos (isr (0xc0, 0) at_left_edge) = 0 \<and> scroll_to_left (isr (0xc0, 0) at_left_edge) = 0 \<and>
   scroll_counter at_right_edge = 1 \<and> NUM_COLUMNS < unat (max_line_size at_right_edge) \<and>
   scroll_to_left at_right_edge = 0 \<and>
   unat (scroll_pos at_right_edge) = unat (max_line_size at_right_edge) - NUM_COLUMNS \<and>
   scroll_pos (isr (0xc0, 0) at_right_edge) = scroll_pos at_right_edge \<and>
   scroll_to_left (isr (0xc0, 0) at_right_edge) = 1"
proof -
  have h0: "scroll_pos started = 0" by code_simp
  have h1: "NUM_COLUMNS < unat (max_line_size (run long_line started))" by code_simp
  have h2: "unat (max_line_size (run short_line started)) \<le> NUM_COLUMNS" by code_simp
  have h3: "scroll_counter at_left_edge = 1 \<and> NUM_COLUMNS < unat (max_line_size at_left_edge) \<and>
      scroll_to_left at_left_edge \<noteq> 0 \<and> scroll_pos at_left_edge = 0" by code_simp
  have h4: "scroll_counter at_right_edge = 1 \<and> NUM_COLUMNS < unat (max_line_size at_right_edge) \<and>
      scroll_to_left at_right_edge = 0 \<and>
      unat (scroll_pos at_right_edge) = unat (max_line_size at_right_edge) - NUM_COLUMNS"
    by code_simp
  note long = scroll_position_in_range [of started long_line at_left_edge "(0xc0, 0)"]
  note short = scroll_position_in_range [of started short_line "run short_line started" "(0xc0, 0)"]
  note right = scroll_position_in_range [of started long_line at_right_edge "(0xc0, 0)"]
  from long h0 h1 have a: "unat (scroll_pos (run long_line started)) \<le>
     unat (max_line_size (run long_line started)) - NUM_COLUMNS" by blast
  from short h0 h2 have b: "scroll_pos (run short_line started) = 0 \<and>
     scroll_pos (isr (0xc0, 0) (run short_line started)) = scroll_pos (run short_line started)"
    by blast
  from long h3 have c: "scroll_pos (isr (0xc0, 0) at_left_edge) = 0 \<and>
     scroll_to_left (isr (0xc0, 0) at_left_edge) = 0" by blast
  from right h4 have d: "scroll_pos (isr (0xc0, 0) at_right_edge) = scroll_pos at_right_edge \<and>
     scroll_to_left (isr (0xc0, 0) at_right_edge) = 1" by blast
  from h0 h1 h2 h3 h4 a b c d show ?thesis by blast
qed

subsection \<open>Staging outputs\<close>

text \<open>The array a staging function leaves behind: the copy made by \<open>strncpy\<close> with its last
  character overwritten by NUL.\<close>

lemma cstr_no_NUL: "NUL \<notin> set (cstr str)"
  unfolding cstr_def by (induction str) auto

lemma cstr_append_NULs:
  "NUL \<notin> set xs \<Longrightarrow> 0 < k \<Longrightarrow> cstr (xs @ replicate k NUL) = xs"
  unfolding cstr_def by (induction xs) (auto simp: gr0_conv_Suc)

lemma terminated_copy:
  assumes "0 < n"
  shows "(strncpy src n)[n - 1 := NUL] =
    take (n - 1) (cstr src) @ replicate (n - length (take (n - 1) (cstr src))) NUL"
proof (cases "length (cstr src) < n")
  case True
  then have "strncpy src n = cstr src @ replicate (n - length (cstr src)) NUL"
    by (simp add: strncpy_def)
  moreover have "(cstr src @ replicate (n - length (cstr src)) NUL)[n - 1 := NUL] =
      cstr src @ replicate (n - length (cstr src)) NUL"
    using True by (subst list_update_same_conv) (auto simp: nth_append)
  ultimately show ?thesis using True by simp
next
  case False
  from assms obtain m where n: "n = Suc m" by (cases n) simp_all
  with False have m: "m < length (cstr src)" by simp
  then have "strncpy src n = take m (cstr src) @ [cstr src ! m]"
    using n by (simp add: strncpy_def take_Suc_conv_app_nth)
  moreover have "length (take m (cstr src)) = m" using m by simp
  ultimately have "(strncpy src n)[m := NUL] = take m (cstr src) @ [NUL]"
    by (simp add: list_update_append)
  then show ?thesis using n m by (simp add: min_def)
qed

lemma terminated_copy_props:
  assumes "0 < n"
  shows "length ((strncpy src n)[n - 1 := NUL]) = n"
    and "last ((strncpy src n)[n - 1 := NUL]) = NUL"
    and "cstr ((strncpy src n)[n - 1 := NUL]) = take (n - 1) (cstr src)"
proof -
  let ?t = "take (n - 1) (cstr src)"
  have len: "length ?t < n" using assms by simp
  show "length ((strncpy src n)[n - 1 := NUL]) = n"
    by (simp add: strncpy_def)
  show "last ((strncpy src n)[n - 1 := NUL]) = NUL"
  proof -
    from len obtain k where "n - length ?t = Suc k"
      by (metis Suc_diff_Suc)
    then show ?thesis unfolding terminated_copy [OF assms] by simp
  qed
  have "NUL \<notin> set ?t" using cstr_no_NUL [of src] by (auto dest: in_set_takeD)
  then show "cstr ((strncpy src n)[n - 1 := NUL]) = ?t"
    unfolding terminated_copy [OF assms] using len by (intro cstr_append_NULs) simp_all
qed

lemmas terminated_copy_Suc = terminated_copy_props [unfolded One_nat_def]

lemma newOutputSeen_full:
  "MAX_OUTPUTS \<le> unat (list_index s) \<Longrightarrow> newOutputSeen cfg a b s = (True, s)"
  by (simp add: newOutputSeen_def)

lemma newOutputSeen_room:
  assumes "unat (list_index s) < MAX_OUTPUTS" and "wf_store s"
    and "0 < TEXT_AMOUNT_LENGTH cfg" and "0 < TEXT_ADDRESS_LENGTH cfg"
  shows "fst (newOutputSeen cfg a b s) = False"
    and "unat (list_index (snd (newOutputSeen cfg a b s))) = unat (list_index s) + 1"
    and "wf_store (snd (newOutputSeen cfg a b s))"
    and "list_amount (snd (newOutputSeen cfg a b s)) =
      (list_amount s)[unat (list_index s) :=
        (strncpy a (TEXT_AMOUNT_LENGTH cfg))[TEXT_AMOUNT_LENGTH cfg - 1 := NUL]]"
    and "list_address (snd (newOutputSeen cfg a b s)) =
      (list_address s)[unat (list_index s) :=
        (strncpy b (TEXT_ADDRESS_LENGTH cfg))[TEXT_ADDRESS_LENGTH cfg - 1 := NUL]]"
    and "transaction_fee_set (snd (newOutputSeen cfg a b s)) = transaction_fee_set s"
    and "transaction_fee_amount (snd (newOutputSeen cfg a b s)) = transaction_fee_amount s"
  using assms
  by (simp_all add: newOutputSeen_def Let_def wf_store_def unat_suc8 MAX_OUTPUTS_def)

text \<open>
  C5. When \<open>list_index\<close> has reached \<open>MAX_OUTPUTS\<close>, \<^verbatim>\<open>newOutputSeen\<close> returns True and the
  state is unchanged. Below capacity it returns False, increments \<open>list_index\<close> and stores in
  row \<open>list_index\<close> of each array a full-length, NUL-terminated array whose string is the
  argument's string cut to the array length less one; the other rows and the fee are
  unchanged. Called three times from an empty store, it returns False, False, True, the
  third call changes nothing, and the two rows hold the (cut) strings of the first two
  calls. The two header constants are assumed positive.
\<close>

theorem newOutputSeen_bounded:
  "(MAX_OUTPUTS \<le> unat (list_index s) \<longrightarrow> newOutputSeen cfg a b s = (True, s)) \<and>
   (unat (list_index s) < MAX_OUTPUTS \<and> wf_store s \<and>
      0 < TEXT_AMOUNT_LENGTH cfg \<and> 0 < TEXT_ADDRESS_LENGTH cfg \<longrightarrow>
      fst (newOutputSeen cfg a b s) = False \<and>
      (let s' = snd (newOutputSeen cfg a b s); i = unat (list_index s) in
         unat (list_index s') = i + 1 \<and> wf_store s' \<and>
         length (list_amount s' ! i) = TEXT_AMOUNT_LENGTH cfg \<and>
         last (list_amount s' ! i) = NUL \<and>
         cstr (list_amount s' ! i) = take (TEXT_AMOUNT_LENGTH cfg - 1) (cstr a) \<and>
         length (list_address s' ! i) = TEXT_ADDRESS_LENGTH cfg \<and>
         last (list_address s' ! i) = NUL \<and>
         cstr (list_address s' ! i) = take (TEXT_ADDRESS_LENGTH cfg - 1) (cstr b) \<and>
         (\<forall>j. j \<noteq> i \<longrightarrow>
            list_amount s' ! j = list_amount s ! j \<and> list_address s' ! j = list_address s ! j) \<and>
         transaction_fee_set s' = transaction_fee_set s \<and>
         transaction_fee_amount s' = transaction_fee_amount s)) \<and>
   (list_index s = 0 \<and> wf_store s \<and>
      0 < TEXT_AMOUNT_LENGTH cfg \<and> 0 < TEXT_ADDRESS_LENGTH cfg \<longrightarrow>
      (let (r1, s1) = newOutputSeen cfg a1 b1 s;
           (r2, s2) = newOutputSeen cfg a2 b2 s1;
           (r3, s3) = newOutputSeen cfg a3 b3 s2
       in \<not> r1 \<and> \<not> r2 \<and> r3 \<and> s3 = s2 \<and> unat (list_index s3) = MAX_OUTPUTS \<and>
          map cstr (list_amount s3) =
            [take (TEXT_AMOUNT_LENGTH cfg - 1) (cstr a1),
             take (TEXT_AMOUNT_LENGTH cfg - 1) (cstr a2)] \<and>
          map cstr (list_address s3) =
            [take (TEXT_ADDRESS_LENGTH cfg - 1) (cstr b1),
             take (TEXT_ADDRESS_LENGTH cfg - 1) (cstr b2)]))"
proof (intro conjI impI)
  assume "MAX_OUTPUTS \<le> unat (list_index s)"
  then show "newOutputSeen cfg a b s = (True, s)" by (rule newOutputSeen_full)
next
  assume "unat (list_index s) < MAX_OUTPUTS \<and> wf_store s \<and>
      0 < TEXT_AMOUNT_LENGTH cfg \<and> 0 < TEXT_ADDRESS_LENGTH cfg"
  then show "fst (newOutputSeen cfg a b s) = False"
    by (simp add: newOutputSeen_room(1))
next
  assume h: "unat (list_index s) < MAX_OUTPUTS \<and> wf_store s \<and>
      0 < TEXT_AMOUNT_LENGTH cfg \<and> 0 < TEXT_ADDRESS_LENGTH cfg"
  then have i: "unat (list_index s) < length (list_amount s)"
      "unat (list_index s) < length (list_address s)"
    by (simp_all add: wf_store_def)
  from h show "let s' = snd (newOutputSeen cfg a b s); i = unat (list_index s) in
         unat (list_index s') = i + 1 \<and> wf_store s' \<and>
         length (list_amount s' ! i) = TEXT_AMOUNT_LENGTH cfg \<and>
         last (list_amount s' ! i) = NUL \<and>
         cstr (list_amount s' ! i) = take (TEXT_AMOUNT_LENGTH cfg - 1) (cstr a) \<and>
         length (list_address s' ! i) = TEXT_ADDRESS_LENGTH cfg \<and>
         last (list_address s' ! i) = NUL \<and>
         cstr (list_address s' ! i) = take (TEXT_ADDRESS_LENGTH cfg - 1) (cstr b) \<and>
         (\<forall>j. j \<noteq> i \<longrightarrow>
            list_amount s' ! j = list_amount s ! j \<and> list_address s' ! j = list_address s ! j) \<and>
         transaction_fee_set s' = transaction_fee_set s \<and>
         transaction_fee_amount s' = transaction_fee_amount s"
    unfolding Let_def
    by (simp add: newOutputSeen_room i terminated_copy_Suc del: length_list_update)
next
  assume h: "list_index s = 0 \<and> wf_store s \<and>
      0 < TEXT_AMOUNT_LENGTH cfg \<and> 0 < TEXT_ADDRESS_LENGTH cfg"
  obtain r1 s1 where c1: "newOutputSeen cfg a1 b1 s = (r1, s1)" by fastforce
  obtain r2 s2 where c2: "newOutputSeen cfg a2 b2 s1 = (r2, s2)" by fastforce
  obtain r3 s3 where c3: "newOutputSeen cfg a3 b3 s2 = (r3, s3)" by fastforce
  from h have 0: "unat (list_index s) < MAX_OUTPUTS" by (simp add: MAX_OUTPUTS_def)
  note one = newOutputSeen_room [of s cfg a1 b1, unfolded c1 fst_conv snd_conv]
  from h 0 have r1: "\<not> r1" and i1: "unat (list_index s1) = 1" and wf1: "wf_store s1"
    and am1: "list_amount s1 = (list_amount s)[0 := (strncpy a1 (TEXT_AMOUNT_LENGTH cfg))[TEXT_AMOUNT_LENGTH cfg - 1 := NUL]]"
    and ad1: "list_address s1 = (list_address s)[0 := (strncpy b1 (TEXT_ADDRESS_LENGTH cfg))[TEXT_ADDRESS_LENGTH cfg - 1 := NUL]]"
    using one by simp_all
  then have 1: "unat (list_index s1) < MAX_OUTPUTS" by (simp add: MAX_OUTPUTS_def)
  note two = newOutputSeen_room [of s1 cfg a2 b2, unfolded c2 fst_conv snd_conv]
  from h 1 wf1 i1 have r2: "\<not> r2" and i2: "unat (list_index s2) = 2" and wf2: "wf_store s2"
    and am2: "list_amount s2 = (list_amount s1)[1 := (strncpy a2 (TEXT_AMOUNT_LENGTH cfg))[TEXT_AMOUNT_LENGTH cfg - 1 := NUL]]"
    and ad2: "list_address s2 = (list_address s1)[1 := (strncpy b2 (TEXT_ADDRESS_LENGTH cfg))[TEXT_ADDRESS_LENGTH cfg - 1 := NUL]]"
    using two by simp_all
  from i2 c3 have three: "r3" "s3 = s2"
    using newOutputSeen_full [of s2 cfg a3 b3] by (simp_all add: MAX_OUTPUTS_def)
  from h obtain x y where am: "list_amount s = [x, y]"
    by (auto simp: wf_store_def MAX_OUTPUTS_def length_Suc_conv eval_nat_numeral)
  from h obtain u v where ad: "list_address s = [u, v]"
    by (auto simp: wf_store_def MAX_OUTPUTS_def length_Suc_conv eval_nat_numeral)
  from h have "map cstr (list_amount s2) =
            [take (TEXT_AMOUNT_LENGTH cfg - 1) (cstr a1),
             take (TEXT_AMOUNT_LENGTH cfg - 1) (cstr a2)]"
    by (simp add: am2 am1 am terminated_copy_Suc)
  moreover from h have "map cstr (list_address s2) =
            [take (TEXT_ADDRESS_LENGTH cfg - 1) (cstr b1),
             take (TEXT_ADDRESS_LENGTH cfg - 1) (cstr b2)]"
    by (simp add: ad2 ad1 ad terminated_copy_Suc)
  ultimately show "let (r1, s1) = newOutputSeen cfg a1 b1 s;
           (r2, s2) = newOutputSeen cfg a2 b2 s1;
           (r3, s3) = newOutputSeen cfg a3 b3 s2
       in \<not> r1 \<and> \<not> r2 \<and> r3 \<and> s3 = s2 \<and> unat (list_index s3) = MAX_OUTPUTS \<and>
          map cstr (list_amount s3) =
            [take (TEXT_AMOUNT_LENGTH cfg - 1) (cstr a1),
             take (TEXT_AMOUNT_LENGTH cfg - 1) (cstr a2)] \<and>
          map cstr (list_address s3) =
            [take (TEXT_ADDRESS_LENGTH cfg - 1) (cstr b1),
             take (TEXT_ADDRESS_LENGTH cfg - 1) (cstr b2)]"
    using r1 r2 three i2 by (simp add: c1 c2 c3 MAX_OUTPUTS_def)
qed

theorem newOutputSeen_bounded_witness:
  "MAX_OUTPUTS \<le> unat (list_index two_staged) \<and>
   newOutputSeen example_config amount_c address_c two_staged = (True, two_staged) \<and>
   unat (list_index started) < MAX_OUTPUTS \<and> wf_store started \<and>
   0 < TEXT_AMOUNT_LENGTH example_config \<and> 0 < TEXT_ADDRESS_LENGTH example_config \<and>
   fst (newOutputSeen example_config amount_a address_a started) = False \<and>
   list_index started = 0 \<and>
   (let (r1, s1) = newOutputSeen example_config amount_a address_a started;
        (r2, s2) = newOutputSeen example_config amount_b address_b s1;
        (r3, s3) = newOutputSeen example_config amount_c address_c s2
    in \<not> r1 \<and> \<not> r2 \<and> r3 \<and> s3 = s2 \<and> unat (list_index s3) = MAX_OUTPUTS \<and>
       map cstr (list_amount s3) =
         [take (TEXT_AMOUNT_LENGTH example_config - 1) (cstr amount_a),
          take (TEXT_AMOUNT_LENGTH example_config - 1) (cstr amount_b)] \<and>
       map cstr (list_address s3) =
         [take (TEXT_ADDRESS_LENGTH example_config - 1) (cstr address_a),
          take (TEXT_ADDRESS_LENGTH example_config - 1) (cstr address_b)])"
proof -
  have h1: "MAX_OUTPUTS \<le> unat (list_index two_staged)" by code_simp
  have h2: "unat (list_index started) < MAX_OUTPUTS \<and> wf_store started \<and>
      0 < TEXT_AMOUNT_LENGTH example_config \<and> 0 < TEXT_ADDRESS_LENGTH example_config"
    by code_simp
  have h3: "list_index started = 0" by code_simp
  note full = newOutputSeen_bounded [of two_staged example_config
      amount_c address_c]
  note room = newOutputSeen_bounded [of started example_config
      amount_a address_a
      amount_a address_a
      amount_b address_b
      amount_c address_c]
  from full h1 have a: "newOutputSeen example_config amount_c address_c two_staged = (True, two_staged)"
    by blast
  from room h2 have b: "fst (newOutputSeen example_config amount_a address_a started) = False"
    by blast
  from room h2 h3 have c: "(let (r1, s1) = newOutputSeen example_config amount_a address_a started;
        (r2, s2) = newOutputSeen example_config amount_b address_b s1;
        (r3, s3) = newOutputSeen example_config amount_c address_c s2
    in \<not> r1 \<and> \<not> r2 \<and> r3 \<and> s3 = s2 \<and> unat (list_index s3) = MAX_OUTPUTS \<and>
       map cstr (list_amount s3) =
         [take (TEXT_AMOUNT_LENGTH example_config - 1) (cstr amount_a),
          take (TEXT_AMOUNT_LENGTH example_config - 1) (cstr amount_b)] \<and>
       map cstr (list_address s3) =
         [take (TEXT_ADDRESS_LENGTH example_config - 1) (cstr address_a),
          take (TEXT_ADDRESS_LENGTH example_config - 1) (cstr address_b)])"
    by blast
  from h1 h2 h3 a b c show ?thesis by blast
qed

subsection \<open>Waiting for a press\<close>

text \<open>
  C7 (as amended). \<^verbatim>\<open>waitForButtonPress\<close> polls until a snapshot has at least one flag true
  (both may be), and is still waiting when the environment has no such snapshot. It
  returns at the first such snapshot \<open>(a, c)\<close>, with the negation of the snapshotted accept
  flag: False (approve) when \<open>a\<close> is true, whatever \<open>c\<close> is, and True (deny) only when \<open>a\<close> is
  false and \<open>c\<close> is true.
\<close>

theorem waitForButtonPress_first_press:
  "waitForButtonPress s env =
     (case find pressed (snapshots s env) of
        None \<Rightarrow> None
      | Some ((a, c), s', env') \<Rightarrow> Some (\<not> a, s', env'))"
proof (induction s env rule: waitForButtonPress.induct)
  case (1 s b1 b2 env)
  then show ?case by (simp add: Let_def pressed_def)
qed simp_all

theorem waitForButtonPress_first_press_witness:
  "waitForButtonPress started (user True) =
     (case find pressed (snapshots started (user True)) of
        None \<Rightarrow> None
      | Some ((a, c), s', env') \<Rightarrow> Some (\<not> a, s', env')) \<and>
   map fst (snapshots started (user True)) = [(False, False), (False, True)] \<and>
   map_option fst (waitForButtonPress started (user True)) = Some True"
proof -
  have "map fst (snapshots started (user True)) = [(False, False), (False, True)]"
    by code_simp
  moreover have "map_option fst (waitForButtonPress started (user True)) = Some True"
    by code_simp
  ultimately show ?thesis
    using waitForButtonPress_first_press [of started "user True"] by blast
qed

text \<open>
  C7 as the spec states it fails when both buttons are held for the same eight ticks: the
  loop ends on a snapshot with both flags true, and the result is False (approve) although
  the snapshotted cancel flag is true.
\<close>

theorem waitForButtonPress_both_buttons:
  "map fst (snapshots started both_held) = [(True, True)] \<and>
   waitForButtonPress started both_held = Some (False, isrs (replicate 8 (0, 0)) started, [])"
  by code_simp

subsection \<open>Reviewing the outputs of a transaction\<close>







subsection \<open>The pages of the backup seed\<close>

lemma nibbleToHex_not_NUL [simp]: "nibbleToHex x \<noteq> NUL"
proof -
  have "unat (x AND 0xf) \<le> unat (0xf :: 8 word)"
    by (rule word_and_le1 [THEN word_le_nat_alt [THEN iffD1]])
  then have b: "unat (x AND 0xf) < 16" by simp
  then have "(of_char (nibbleToHex x) :: nat) =
      (if x AND 0xf < 10 then 48 + unat (x AND 0xf) else 97 + (unat (x AND 0xf) - 10))"
    by (simp add: nibbleToHex_def Let_def)
  then have "of_char (nibbleToHex x) \<noteq> (0 :: nat)" by simp
  then show ?thesis by (auto simp: NUL_def)
qed

lemma space_not_NUL [simp]: "CHR '' '' \<noteq> NUL"
  by (simp add: NUL_def)




lemma rs_write8 [simp]: "rs (write8 v s) = rs s"
  by (simp add: write8_def write4_def)

lemma rs_writeChars [simp]: "rs (writeChars str s) = rs s"
  by (induction str arbitrary: s) (simp_all add: Let_def)































end
